theory Spec2Isabelle
  imports Main
begin

section \<open>Python values\<close>

text \<open>
  A Python \<open>str\<close> is a sequence of Unicode code points, so it is modelled as a list of
  natural numbers (an Isabelle \<open>char\<close> is one byte and cannot hold an emoji). The
  function \<open>str\<close> reads an ASCII literal of the source as such a sequence.
\<close>

type_synonym pystr = "nat list"

definition str :: "string \<Rightarrow> pystr" where
  "str s = map of_char s"

text \<open>
  The objects that the \<open>to_dict\<close> methods build and that \<open>json.dumps\<close> accepts:
  \<open>None\<close>, booleans, integers, strings, lists, and dictionaries with string keys.
  A \<open>dict\<close> keeps its keys in insertion order, so it is an association list.
\<close>

datatype pyval =
    PNone
  | PBool bool
  | PInt int
  | PStr pystr
  | PList "pyval list"
  | PDict "(pystr \<times> pyval) list"

type_synonym pydict = "(pystr \<times> pyval) list"

text \<open>
  \<open>d[k] = v\<close>: an existing key keeps its position and gets the new value, a new key
  is appended.
\<close>

fun dict_set :: "('k \<times> 'v) list \<Rightarrow> 'k \<Rightarrow> 'v \<Rightarrow> ('k \<times> 'v) list" where
  "dict_set [] k v = [(k, v)]"
| "dict_set ((k', v') # d) k v =
     (if k' = k then (k, v) # d else (k', v') # dict_set d k v)"

text \<open>\<open>d.keys()\<close> and \<open>d.get(k)\<close>.\<close>

definition keys :: "('k \<times> 'v) list \<Rightarrow> 'k list" where
  "keys d = map fst d"

definition dict_get :: "('k \<times> 'v) list \<Rightarrow> 'k \<Rightarrow> 'v option" where
  "dict_get d k = map_of d k"

section \<open>The enumerations of \<open>kanban_models.py\<close>\<close>

datatype ColumnState = TODO | IN_PROGRESS | PENDING | DONE

datatype SortField = UPDATE_DATE_TIME | DUE_DATE | TITLE | TIME_SPENT

datatype SortOrder = ASC | DESC

datatype KanbanView = HORIZONTAL | VERTICAL | TABLE

text \<open>The \<open>.value\<close> of each member, as the class bodies assign it.\<close>

fun ColumnState_value :: "ColumnState \<Rightarrow> pystr" where
  "ColumnState_value TODO = str ''todo''"
| "ColumnState_value IN_PROGRESS = str ''in-progress''"
| "ColumnState_value PENDING = str ''pending''"
| "ColumnState_value DONE = str ''done''"

fun SortField_value :: "SortField \<Rightarrow> pystr" where
  "SortField_value UPDATE_DATE_TIME = str ''updateDateTime''"
| "SortField_value DUE_DATE = str ''dueDate''"
| "SortField_value TITLE = str ''title''"
| "SortField_value TIME_SPENT = str ''timeSpent''"

fun SortOrder_value :: "SortOrder \<Rightarrow> pystr" where
  "SortOrder_value ASC = str ''asc''"
| "SortOrder_value DESC = str ''desc''"

fun KanbanView_value :: "KanbanView \<Rightarrow> pystr" where
  "KanbanView_value HORIZONTAL = str ''horizontal''"
| "KanbanView_value VERTICAL = str ''vertical''"
| "KanbanView_value TABLE = str ''table''"

text \<open>The \<open>.name\<close> of each member: the identifier the class body binds.\<close>

fun ColumnState_name :: "ColumnState \<Rightarrow> pystr" where
  "ColumnState_name TODO = str ''TODO''"
| "ColumnState_name IN_PROGRESS = str ''IN_PROGRESS''"
| "ColumnState_name PENDING = str ''PENDING''"
| "ColumnState_name DONE = str ''DONE''"

fun SortField_name :: "SortField \<Rightarrow> pystr" where
  "SortField_name UPDATE_DATE_TIME = str ''UPDATE_DATE_TIME''"
| "SortField_name DUE_DATE = str ''DUE_DATE''"
| "SortField_name TITLE = str ''TITLE''"
| "SortField_name TIME_SPENT = str ''TIME_SPENT''"

fun SortOrder_name :: "SortOrder \<Rightarrow> pystr" where
  "SortOrder_name ASC = str ''ASC''"
| "SortOrder_name DESC = str ''DESC''"

fun KanbanView_name :: "KanbanView \<Rightarrow> pystr" where
  "KanbanView_name HORIZONTAL = str ''HORIZONTAL''"
| "KanbanView_name VERTICAL = str ''VERTICAL''"
| "KanbanView_name TABLE = str ''TABLE''"

section \<open>The dataclasses\<close>

text \<open>
  An \<open>Optional[...]\<close> field is an \<open>option\<close>: \<open>None\<close> is Python's \<open>None\<close>, the
  default of every optional field.
\<close>

record TimerEntry =
  start_time :: pystr
  end_time :: "pystr option"

record KanbanTask =
  task :: pystr
  status :: "pystr option"
  timer_entries :: "TimerEntry list option"
  target_time :: "pystr option"
  tags :: "pystr list option"
  due_date :: "pystr option"
  update_date_time :: "pystr option"

record ColumnMetadata =
  name :: pystr
  state :: ColumnState
  icon :: "pystr option"
  sort_field :: "SortField option"
  sort_order :: "SortOrder option"
  manual_sort :: "bool option"

record KanbanData =
  tasks :: "KanbanTask list option"
  columns :: "pystr list option"
  column_metadata :: "ColumnMetadata list option"
  collapsed_columns :: "pystr list option"
  view :: "KanbanView option"
  slim_mode :: "bool option"
  column_widths :: "(pystr \<times> int) list option"

section \<open>The \<open>to_dict\<close> methods\<close>

text \<open>\<open>TimerEntry.to_dict\<close>: a dictionary display with both keys, whatever \<open>end_time\<close> is.\<close>

definition TimerEntry_to_dict :: "TimerEntry \<Rightarrow> pydict" where
  "TimerEntry_to_dict self =
     [(str ''startTime'', PStr (start_time self)),
      (str ''endTime'', (case end_time self of None \<Rightarrow> PNone | Some s \<Rightarrow> PStr s))]"

text \<open>
  \<open>KanbanTask.to_dict\<close>: \<open>result\<close> starts with the key \<open>task\<close>; each
  \<open>if self.f is not None: result[key] = ...\<close> is one rebinding of \<open>result\<close>.
\<close>

definition KanbanTask_to_dict :: "KanbanTask \<Rightarrow> pydict" where
  "KanbanTask_to_dict self =
     (let result = [(str ''task'', PStr (task self))];
          result = (case status self of None \<Rightarrow> result
                    | Some s \<Rightarrow> dict_set result (str ''status'') (PStr s));
          result = (case timer_entries self of None \<Rightarrow> result
                    | Some es \<Rightarrow> dict_set result (str ''timerEntries'')
                        (PList (map (\<lambda>entry. PDict (TimerEntry_to_dict entry)) es)));
          result = (case target_time self of None \<Rightarrow> result
                    | Some s \<Rightarrow> dict_set result (str ''targetTime'') (PStr s));
          result = (case tags self of None \<Rightarrow> result
                    | Some ts \<Rightarrow> dict_set result (str ''tags'') (PList (map PStr ts)));
          result = (case due_date self of None \<Rightarrow> result
                    | Some s \<Rightarrow> dict_set result (str ''dueDate'') (PStr s));
          result = (case update_date_time self of None \<Rightarrow> result
                    | Some s \<Rightarrow> dict_set result (str ''updateDateTime'') (PStr s))
      in result)"

text \<open>\<open>ColumnMetadata.to_dict\<close>: \<open>name\<close> and \<open>state\<close> first, then the optional fields.\<close>

definition ColumnMetadata_to_dict :: "ColumnMetadata \<Rightarrow> pydict" where
  "ColumnMetadata_to_dict self =
     (let result = [(str ''name'', PStr (name self)),
                    (str ''state'', PStr (ColumnState_value (state self)))];
          result = (case icon self of None \<Rightarrow> result
                    | Some s \<Rightarrow> dict_set result (str ''icon'') (PStr s));
          result = (case sort_field self of None \<Rightarrow> result
                    | Some f \<Rightarrow> dict_set result (str ''sortField'') (PStr (SortField_value f)));
          result = (case sort_order self of None \<Rightarrow> result
                    | Some ord \<Rightarrow> dict_set result (str ''sortOrder'') (PStr (SortOrder_value ord)));
          result = (case manual_sort self of None \<Rightarrow> result
                    | Some b \<Rightarrow> dict_set result (str ''manualSort'') (PBool b))
      in result)"

text \<open>\<open>KanbanData.to_dict\<close>: \<open>result\<close> starts empty.\<close>

definition KanbanData_to_dict :: "KanbanData \<Rightarrow> pydict" where
  "KanbanData_to_dict self =
     (let result = [];
          result = (case tasks self of None \<Rightarrow> result
                    | Some ts \<Rightarrow> dict_set result (str ''tasks'')
                        (PList (map (\<lambda>task. PDict (KanbanTask_to_dict task)) ts)));
          result = (case columns self of None \<Rightarrow> result
                    | Some cs \<Rightarrow> dict_set result (str ''columns'') (PList (map PStr cs)));
          result = (case column_metadata self of None \<Rightarrow> result
                    | Some ms \<Rightarrow> dict_set result (str ''columnMetadata'')
                        (PList (map (\<lambda>meta. PDict (ColumnMetadata_to_dict meta)) ms)));
          result = (case collapsed_columns self of None \<Rightarrow> result
                    | Some cs \<Rightarrow> dict_set result (str ''collapsedColumns'') (PList (map PStr cs)));
          result = (case view self of None \<Rightarrow> result
                    | Some v \<Rightarrow> dict_set result (str ''view'') (PStr (KanbanView_value v)));
          result = (case slim_mode self of None \<Rightarrow> result
                    | Some b \<Rightarrow> dict_set result (str ''slimMode'') (PBool b));
          result = (case column_widths self of None \<Rightarrow> result
                    | Some ws \<Rightarrow> dict_set result (str ''columnWidths'')
                        (PDict (map (\<lambda>(k, w). (k, PInt w)) ws)))
      in result)"

text \<open>
  The dataclass constructors with only the required arguments given: every other field
  takes its declared default (\<open>None\<close>, and \<open>ColumnState.TODO\<close> for \<open>state\<close>). A call with
  keyword arguments is such a value with the named fields updated.
\<close>

definition TimerEntry_init :: "pystr \<Rightarrow> TimerEntry" where
  "TimerEntry_init start = \<lparr>start_time = start, end_time = None\<rparr>"

definition KanbanTask_init :: "pystr \<Rightarrow> KanbanTask" where
  "KanbanTask_init t =
     \<lparr>task = t, status = None, timer_entries = None, target_time = None, tags = None,
      due_date = None, update_date_time = None\<rparr>"

definition ColumnMetadata_init :: "pystr \<Rightarrow> ColumnMetadata" where
  "ColumnMetadata_init n =
     \<lparr>name = n, state = TODO, icon = None, sort_field = None, sort_order = None,
      manual_sort = None\<rparr>"

definition KanbanData_init :: "KanbanData" where
  "KanbanData_init =
     \<lparr>tasks = None, columns = None, column_metadata = None, collapsed_columns = None,
      view = None, slim_mode = None, column_widths = None\<rparr>"

section \<open>The field-emission rule of the specification\<close>

text \<open>
  The rule as the specification words it, for comparison with the methods above: a field
  that is not set contributes nothing, a field that is set contributes one entry under
  its wire key.
\<close>

fun emit :: "pystr \<Rightarrow> pyval option \<Rightarrow> pydict" where
  "emit k None = []"
| "emit k (Some v) = [(k, v)]"

section \<open>\<open>json.dumps\<close>\<close>

text \<open>
  \<open>to_json\<close> and the example's \<open>main\<close> call \<open>json.dumps(obj, indent=..., ensure_ascii=False)\<close>
  of the standard library. The model follows the library's encoder
  (\<open>json.encoder\<close>: \<open>py_encode_basestring\<close>, \<open>py_encode_basestring_ascii\<close> and
  \<open>_make_iterencode\<close>) on the values of type \<open>pyval\<close>, with the default separators.
\<close>

text \<open>\<open>int.__repr__\<close>: decimal digits, with a minus sign for a negative number.\<close>

fun digits :: "nat \<Rightarrow> pystr" where
  "digits n = (if n < 10 then [48 + n] else digits (n div 10) @ [48 + n mod 10])"

declare digits.simps [simp del]

definition int_repr :: "int \<Rightarrow> pystr" where
  "int_repr i = (if i < 0 then 45 # digits (nat (- i)) else digits (nat i))"

text \<open>\<open>'{0:04x}'.format(n)\<close>: lower-case hexadecimal, padded with zeros to four digits.\<close>

definition hexdigit :: "nat \<Rightarrow> nat" where
  "hexdigit d = (if d < 10 then 48 + d else 87 + d)"

fun hex_digits :: "nat \<Rightarrow> pystr" where
  "hex_digits n =
     (if n < 16 then [hexdigit n] else hex_digits (n div 16) @ [hexdigit (n mod 16)])"

declare hex_digits.simps [simp del]

definition format_04x :: "nat \<Rightarrow> pystr" where
  "format_04x n = (let h = hex_digits n in replicate (4 - length h) 48 @ h)"

text \<open>
  \<open>ESCAPE_DCT\<close>: backslash, double quote, backspace, form feed, newline, carriage
  return and tab have a two-character escape; every other code point below \<open>0x20\<close> is
  \<open>\u\<close> and four hexadecimal digits. (92 is the backslash, 34 the double quote, 117 the
  letter u.)
\<close>

definition ESCAPE_DCT :: "nat \<Rightarrow> pystr option" where
  "ESCAPE_DCT c =
     (if c = 92 then Some [92, 92]
      else if c = 34 then Some [92, 34]
      else if c = 8 then Some [92, 98]
      else if c = 12 then Some [92, 102]
      else if c = 10 then Some [92, 110]
      else if c = 13 then Some [92, 114]
      else if c = 9 then Some [92, 116]
      else if c < 32 then Some ([92, 117] @ format_04x c)
      else None)"

text \<open>
  The character classes of the two regular expressions: \<open>ESCAPE\<close> matches the control
  characters, the backslash and the double quote; \<open>ESCAPE_ASCII\<close> matches the backslash,
  the double quote and everything outside the range from the space to the tilde.
\<close>

definition ESCAPE :: "nat \<Rightarrow> bool" where
  "ESCAPE c \<longleftrightarrow> c < 32 \<or> c = 92 \<or> c = 34"

definition ESCAPE_ASCII :: "nat \<Rightarrow> bool" where
  "ESCAPE_ASCII c \<longleftrightarrow> c = 92 \<or> c = 34 \<or> \<not> (32 \<le> c \<and> c \<le> 126)"

text \<open>
  \<open>encode_basestring\<close>, the encoder of \<open>ensure_ascii=False\<close>: each match of \<open>ESCAPE\<close> is
  replaced by its entry of \<open>ESCAPE_DCT\<close> (every match has one), the rest is copied.
\<close>

definition encode_basestring :: "pystr \<Rightarrow> pystr" where
  "encode_basestring s =
     [34] @ concat (map (\<lambda>c. if ESCAPE c
                              then (case ESCAPE_DCT c of Some r \<Rightarrow> r | None \<Rightarrow> [c])
                              else [c]) s) @ [34]"

text \<open>
  \<open>encode_basestring_ascii\<close>, the encoder of \<open>ensure_ascii=True\<close>: a match without an
  entry in \<open>ESCAPE_DCT\<close> becomes \<open>\uXXXX\<close>, or a surrogate pair beyond \<open>0xFFFF\<close>.
\<close>

definition replace_ascii :: "nat \<Rightarrow> pystr" where
  "replace_ascii c =
     (case ESCAPE_DCT c of
        Some r \<Rightarrow> r
      | None \<Rightarrow>
          if c < 65536 then [92, 117] @ format_04x c
          else (let n = c - 65536;
                    s1 = 55296 + (n div 1024) mod 1024;
                    s2 = 56320 + n mod 1024
                in [92, 117] @ format_04x s1 @ [92, 117] @ format_04x s2))"

definition encode_basestring_ascii :: "pystr \<Rightarrow> pystr" where
  "encode_basestring_ascii s =
     [34] @ concat (map (\<lambda>c. if ESCAPE_ASCII c then replace_ascii c else [c]) s) @ [34]"

text \<open>
  The loops of \<open>_iterencode_list\<close> and \<open>_iterencode_dict\<close> put the separator before
  every item but the first.
\<close>

fun join :: "'a list \<Rightarrow> 'a list list \<Rightarrow> 'a list" where
  "join sep [] = []"
| "join sep [x] = x"
| "join sep (x # y # ys) = x @ sep @ join sep (y # ys)"

text \<open>
  \<open>_iterencode\<close>, with the chunks concatenated. \<open>enc\<close> is the string encoder, \<open>ind\<close> the
  indentation string of one level (\<open>None\<close> for \<open>indent=None\<close>) and \<open>lvl\<close> the current
  level. With an indentation, every item of a non-empty list or dictionary starts a
  new line one level deeper and the closing bracket a new line at the level itself;
  the item separator is then a comma, otherwise a comma and a space.
\<close>

fun iterencode :: "(pystr \<Rightarrow> pystr) \<Rightarrow> pystr option \<Rightarrow> nat \<Rightarrow> pyval \<Rightarrow> pystr" where
  "iterencode enc ind lvl PNone = str ''null''"
| "iterencode enc ind lvl (PBool b) = (if b then str ''true'' else str ''false'')"
| "iterencode enc ind lvl (PInt i) = int_repr i"
| "iterencode enc ind lvl (PStr s) = enc s"
| "iterencode enc ind lvl (PList lst) =
     (if lst = [] then str ''[]''
      else (case ind of
              None \<Rightarrow>
                str ''['' @ join (str '', '') (map (iterencode enc ind lvl) lst) @ str '']''
            | Some i \<Rightarrow>
                (let newline_indent = 10 # concat (replicate (lvl + 1) i);
                     separator = str '','' @ newline_indent
                 in str ''['' @ newline_indent
                    @ join separator (map (iterencode enc ind (lvl + 1)) lst)
                    @ 10 # concat (replicate lvl i) @ str '']'')))"
| "iterencode enc ind lvl (PDict dct) =
     (if dct = [] then str ''{}''
      else (case ind of
              None \<Rightarrow>
                str ''{''
                @ join (str '', '')
                    (map (\<lambda>(k, v). enc k @ str '': '' @ iterencode enc ind lvl v) dct)
                @ str ''}''
            | Some i \<Rightarrow>
                (let newline_indent = 10 # concat (replicate (lvl + 1) i);
                     item_separator = str '','' @ newline_indent
                 in str ''{'' @ newline_indent
                    @ join item_separator
                        (map (\<lambda>(k, v). enc k @ str '': '' @ iterencode enc ind (lvl + 1) v) dct)
                    @ 10 # concat (replicate lvl i) @ str ''}'')))"

text \<open>
  \<open>json.dumps(obj, indent=indent, ensure_ascii=ensure_ascii)\<close>: an integer \<open>indent\<close>
  becomes that many spaces (none for a negative one).
\<close>

definition dumps :: "pyval \<Rightarrow> int option \<Rightarrow> bool \<Rightarrow> pystr" where
  "dumps obj indent ensure_ascii =
     iterencode (if ensure_ascii then encode_basestring_ascii else encode_basestring)
       (map_option (\<lambda>n. replicate (nat n) 32) indent) 0 obj"

section \<open>\<open>KanbanData.to_json\<close> and the simple format of \<open>example.py\<close>\<close>

text \<open>
  \<open>to_json(self, indent: int = 2)\<close>. The second argument is \<open>None\<close> for a call that
  gives no \<open>indent\<close>, which then takes the default 2.
\<close>

definition to_json :: "KanbanData \<Rightarrow> int option \<Rightarrow> pystr" where
  "to_json self indent_arg =
     (let indent = (case indent_arg of None \<Rightarrow> 2 | Some n \<Rightarrow> n)
      in dumps (PDict (KanbanData_to_dict self)) (Some indent) False)"




section \<open>What a text contains\<close>

text \<open>
  The code points of all strings of a value, keys included, in the order in which the
  encoder visits them; and the code points of a text that are not ASCII.
\<close>

fun text_of :: "pyval \<Rightarrow> pystr" where
  "text_of PNone = []"
| "text_of (PBool b) = []"
| "text_of (PInt i) = []"
| "text_of (PStr s) = s"
| "text_of (PList lst) = concat (map text_of lst)"
| "text_of (PDict dct) = concat (map (\<lambda>(k, v). k @ text_of v) dct)"

definition non_ascii :: "pystr \<Rightarrow> pystr" where
  "non_ascii s = filter (\<lambda>c. 128 \<le> c) s"

section \<open>Lines and their indentation\<close>

text \<open>
  The lines of a text, as \<open>text.split('\n')\<close> gives them, and the number of spaces a
  line starts with.
\<close>

fun split_lines :: "pystr \<Rightarrow> pystr list" where
  "split_lines [] = [[]]"
| "split_lines (c # s) =
     (if c = 10 then [] # split_lines s
      else (case split_lines s of [] \<Rightarrow> [[c]] | l # ls \<Rightarrow> (c # l) # ls))"

definition leading_spaces :: "pystr \<Rightarrow> nat" where
  "leading_spaces l = length (takeWhile (\<lambda>c. c = 32) l)"

text \<open>
  A line is visible when it has a character that is not a space. A line is indented
  for the width \<open>w\<close> when it is visible and starts with a multiple of \<open>w\<close> spaces. A
  text is well indented when its first line starts with a character that is not a
  space and every later line is indented.
\<close>

definition visible :: "pystr \<Rightarrow> bool" where
  "visible l \<longleftrightarrow> leading_spaces l < length l"

definition indented_line :: "nat \<Rightarrow> pystr \<Rightarrow> bool" where
  "indented_line w l \<longleftrightarrow> visible l \<and> w dvd leading_spaces l"

definition well_indented :: "nat \<Rightarrow> pystr \<Rightarrow> bool" where
  "well_indented w t \<longleftrightarrow> hd (split_lines t) \<noteq> [] \<and> hd (hd (split_lines t)) \<noteq> 32
     \<and> list_all (indented_line w) (tl (split_lines t))"

section \<open>Reading JSON text\<close>

text \<open>
  What a text encodes is what a reader of JSON gets from it. The reader follows the
  grammar of JSON for the values of type \<open>pyval\<close>: insignificant whitespace is the space,
  the newline, the carriage return and the tab; a number is an optional minus sign and
  decimal digits without a leading zero.
\<close>

definition is_ws :: "nat \<Rightarrow> bool" where
  "is_ws c \<longleftrightarrow> c = 32 \<or> c = 10 \<or> c = 13 \<or> c = 9"

definition skip_ws :: "pystr \<Rightarrow> pystr" where
  "skip_ws s = dropWhile is_ws s"

definition is_digit :: "nat \<Rightarrow> bool" where
  "is_digit c \<longleftrightarrow> 48 \<le> c \<and> c \<le> 57"

definition digits_value :: "pystr \<Rightarrow> nat" where
  "digits_value ds = foldl (\<lambda>a d. 10 * a + (d - 48)) 0 ds"

definition read_digits :: "pystr \<Rightarrow> (nat \<times> pystr) option" where
  "read_digits s =
     (let ds = takeWhile is_digit s
      in if ds = [] then None
         else if hd ds = 48 \<and> 1 < length ds then None
         else Some (digits_value ds, dropWhile is_digit s))"

text \<open>
  A string runs to the closing double quote. A backslash starts an escape: one of the
  two-character escapes, or \<open>u\<close> and four hexadecimal digits. A control character that
  is not escaped is refused.
\<close>

definition unhex :: "nat \<Rightarrow> nat option" where
  "unhex c =
     (if 48 \<le> c \<and> c \<le> 57 then Some (c - 48)
      else if 97 \<le> c \<and> c \<le> 102 then Some (c - 87)
      else if 65 \<le> c \<and> c \<le> 70 then Some (c - 55)
      else None)"

definition unescape :: "nat \<Rightarrow> nat option" where
  "unescape e =
     (if e = 34 then Some 34
      else if e = 92 then Some 92
      else if e = 47 then Some 47
      else if e = 98 then Some 8
      else if e = 102 then Some 12
      else if e = 110 then Some 10
      else if e = 114 then Some 13
      else if e = 116 then Some 9
      else None)"

fun read_chars :: "pystr \<Rightarrow> (pystr \<times> pystr) option" where
  "read_chars [] = None"
| "read_chars (c # r) =
     (if c = 34 then Some ([], r)
      else if c = 92 then
        (case r of
           [] \<Rightarrow> None
         | e # r1 \<Rightarrow>
             if e = 117 then
               (case r1 of
                  h1 # h2 # h3 # h4 # r2 \<Rightarrow>
                    (case (unhex h1, unhex h2, unhex h3, unhex h4) of
                       (Some a, Some b, Some c', Some d) \<Rightarrow>
                         (case read_chars r2 of
                            None \<Rightarrow> None
                          | Some (s, rest) \<Rightarrow> Some ((((a * 16 + b) * 16 + c') * 16 + d) # s, rest))
                     | _ \<Rightarrow> None)
                | _ \<Rightarrow> None)
             else
               (case unescape e of
                  None \<Rightarrow> None
                | Some x \<Rightarrow>
                    (case read_chars r1 of
                       None \<Rightarrow> None
                     | Some (s, rest) \<Rightarrow> Some (x # s, rest))))
      else if c < 32 then None
      else (case read_chars r of
              None \<Rightarrow> None
            | Some (s, rest) \<Rightarrow> Some (c # s, rest)))"

text \<open>
  Values, the items of a list after its opening bracket, and the members of an
  object after its opening brace. Each returns what it read and the rest of the text.
  The first argument bounds the depth of the recursion; the length of the text is enough.
\<close>

fun read_value :: "nat \<Rightarrow> pystr \<Rightarrow> (pyval \<times> pystr) option"
  and read_items :: "nat \<Rightarrow> pystr \<Rightarrow> (pyval list \<times> pystr) option"
  and read_members :: "nat \<Rightarrow> pystr \<Rightarrow> ((pystr \<times> pyval) list \<times> pystr) option" where
  "read_value 0 s = None"
| "read_value (Suc f) s =
     (case skip_ws s of
        [] \<Rightarrow> None
      | c # r \<Rightarrow>
          if c = 110 then (if take 3 r = str ''ull'' then Some (PNone, drop 3 r) else None)
          else if c = 116 then (if take 3 r = str ''rue'' then Some (PBool True, drop 3 r) else None)
          else if c = 102 then (if take 4 r = str ''alse'' then Some (PBool False, drop 4 r) else None)
          else if c = 34 then
            (case read_chars r of None \<Rightarrow> None | Some (x, r1) \<Rightarrow> Some (PStr x, r1))
          else if c = 91 then
            (case skip_ws r of
               [] \<Rightarrow> None
             | c1 # r1 \<Rightarrow>
                 if c1 = 93 then Some (PList [], r1)
                 else (case read_items f r of None \<Rightarrow> None | Some (xs, r2) \<Rightarrow> Some (PList xs, r2)))
          else if c = 123 then
            (case skip_ws r of
               [] \<Rightarrow> None
             | c1 # r1 \<Rightarrow>
                 if c1 = 125 then Some (PDict [], r1)
                 else (case read_members f r of None \<Rightarrow> None | Some (kvs, r2) \<Rightarrow> Some (PDict kvs, r2)))
          else if c = 45 then
            (case read_digits r of None \<Rightarrow> None | Some (n, r1) \<Rightarrow> Some (PInt (- int n), r1))
          else (case read_digits (c # r) of None \<Rightarrow> None | Some (n, r1) \<Rightarrow> Some (PInt (int n), r1)))"
| "read_items 0 s = None"
| "read_items (Suc f) s =
     (case read_value f s of
        None \<Rightarrow> None
      | Some (x, r) \<Rightarrow>
          (case skip_ws r of
             [] \<Rightarrow> None
           | c # r1 \<Rightarrow>
               if c = 44 then
                 (case read_items f r1 of None \<Rightarrow> None | Some (xs, r2) \<Rightarrow> Some (x # xs, r2))
               else if c = 93 then Some ([x], r1)
               else None))"
| "read_members 0 s = None"
| "read_members (Suc f) s =
     (case skip_ws s of
        [] \<Rightarrow> None
      | q # r \<Rightarrow>
          if q = 34 then
            (case read_chars r of
               None \<Rightarrow> None
             | Some (k, r1) \<Rightarrow>
                 (case skip_ws r1 of
                    [] \<Rightarrow> None
                  | colon # r2 \<Rightarrow>
                      if colon = 58 then
                        (case read_value f r2 of
                           None \<Rightarrow> None
                         | Some (v, r3) \<Rightarrow>
                             (case skip_ws r3 of
                                [] \<Rightarrow> None
                              | c # r4 \<Rightarrow>
                                  if c = 44 then
                                    (case read_members f r4 of
                                       None \<Rightarrow> None
                                     | Some (kvs, r5) \<Rightarrow> Some ((k, v) # kvs, r5))
                                  else if c = 125 then Some ([(k, v)], r4)
                                  else None))
                      else None))
          else None)"

text \<open>The whole text is one value, with nothing but whitespace after it.\<close>

definition loads :: "pystr \<Rightarrow> pyval option" where
  "loads s =
     (case read_value (Suc (length s)) s of
        None \<Rightarrow> None
      | Some (v, r) \<Rightarrow> if skip_ws r = [] then Some v else None)"

text \<open>
  For the proofs: a text that does not go on with a digit, the characters a value can
  start with, and the replacement of one character by \<open>encode_basestring\<close>.
\<close>

definition no_digit_start :: "pystr \<Rightarrow> bool" where
  "no_digit_start r = (case r of [] \<Rightarrow> True | c # _ \<Rightarrow> \<not> is_digit c)"

definition value_start :: "nat \<Rightarrow> bool" where
  "value_start c \<longleftrightarrow> c = 110 \<or> c = 116 \<or> c = 102 \<or> c = 34 \<or> c = 91 \<or> c = 123 \<or> c = 45 \<or> is_digit c"

definition esc :: "nat \<Rightarrow> pystr" where
  "esc c = (if ESCAPE c then (case ESCAPE_DCT c of Some r \<Rightarrow> r | None \<Rightarrow> [c]) else [c])"

section \<open>The layout of an indented text\<close>

text \<open>
  The lines an indented text is to have, each with its nesting level: a scalar, an empty
  list and an empty dictionary are one row; a list or dictionary with items is the
  opening bracket at its own level, the rows of the items one level deeper, with a comma
  after every item but the last, and the closing bracket at its own level again. A member
  of a dictionary has its key and a colon before the first row of its value.
\<close>

fun add_last :: "pystr \<Rightarrow> (nat \<times> pystr) list \<Rightarrow> (nat \<times> pystr) list" where
  "add_last s [] = []"
| "add_last s [r] = [(fst r, snd r @ s)]"
| "add_last s (r # r' # rs) = r # add_last s (r' # rs)"

fun commas :: "(nat \<times> pystr) list list \<Rightarrow> (nat \<times> pystr) list" where
  "commas [] = []"
| "commas [g] = g"
| "commas (g # h # gs) = add_last (str '','') g @ commas (h # gs)"

fun prefix_first :: "pystr \<Rightarrow> (nat \<times> pystr) list \<Rightarrow> (nat \<times> pystr) list" where
  "prefix_first p [] = []"
| "prefix_first p (r # rs) = (fst r, p @ snd r) # rs"

fun rows :: "nat \<Rightarrow> pyval \<Rightarrow> (nat \<times> pystr) list" where
  "rows lvl PNone = [(lvl, str ''null'')]"
| "rows lvl (PBool b) = [(lvl, if b then str ''true'' else str ''false'')]"
| "rows lvl (PInt i) = [(lvl, int_repr i)]"
| "rows lvl (PStr s) = [(lvl, encode_basestring s)]"
| "rows lvl (PList lst) =
     (if lst = [] then [(lvl, str ''[]'')]
      else (lvl, str ''['') # commas (map (rows (lvl + 1)) lst) @ [(lvl, str '']'')])"
| "rows lvl (PDict dct) =
     (if dct = [] then [(lvl, str ''{}'')]
      else (lvl, str ''{'')
           # commas (map (\<lambda>(k, v). prefix_first (encode_basestring k @ str '': '')
                                     (rows (lvl + 1) v)) dct)
           @ [(lvl, str ''}'')])"

text \<open>
  A row is written as its level times the width in spaces and then its content;
  \<open>tail_text\<close> is the text of rows that each start a new line. A content is in order
  when it is not empty, does not start with a space and has no newline.
\<close>

definition render :: "nat \<Rightarrow> nat \<times> pystr \<Rightarrow> pystr" where
  "render w r = replicate (fst r * w) 32 @ snd r"

definition tail_text :: "nat \<Rightarrow> (nat \<times> pystr) list \<Rightarrow> pystr" where
  "tail_text w rs = concat (map (\<lambda>r. 10 # render w r) rs)"

definition row_ok :: "pystr \<Rightarrow> bool" where
  "row_ok c \<longleftrightarrow> c \<noteq> [] \<and> hd c \<noteq> 32 \<and> 10 \<notin> set c"

section \<open>A board with every kind of value\<close>

text \<open>
  A task whose name is a double quote, the letter a, a backslash, a newline and the
  control character 1, with a running timer; a column with \<open>manual_sort=True\<close>;
  \<open>slim_mode=False\<close>; and the column widths 300 and -5.
\<close>

definition example_board :: KanbanData where
  "example_board =
     KanbanData_init
       \<lparr>tasks := Some [(KanbanTask_init [34, 97, 92, 10, 1])
                        \<lparr>timer_entries := Some [TimerEntry_init (str ''t0'')]\<rparr>],
        column_metadata := Some [(ColumnMetadata_init (str ''Done''))
                                   \<lparr>state := DONE, manual_sort := Some True\<rparr>],
        slim_mode := Some False,
        column_widths := Some [(str ''A'', 300), (str ''B'', - 5)]\<rparr>"

section \<open>Dictionaries and strings\<close>

lemma str_eq_iff [simp]: "str a = str b \<longleftrightarrow> a = b"
  unfolding str_def by (simp add: inj_map_eq_map inj_on_def)

lemma dict_get_Nil [simp]: "dict_get [] k = None"
  by (simp add: dict_get_def)

lemma dict_get_Cons [simp]:
  "dict_get ((k, v) # d) k' = (if k' = k then Some v else dict_get d k')"
  by (simp add: dict_get_def)

lemma dict_get_append [simp]:
  "dict_get (a @ b) k = (case dict_get a k of None \<Rightarrow> dict_get b k | Some v \<Rightarrow> Some v)"
  by (induction a) (auto simp: dict_get_def)

lemma dict_get_emit [simp]: "dict_get (emit k v) k' = (if k' = k then v else None)"
  by (cases v) simp_all

lemma keys_Nil [simp]: "keys [] = []"
  by (simp add: keys_def)

lemma keys_Cons [simp]: "keys ((k, v) # d) = k # keys d"
  by (simp add: keys_def)

lemma keys_append [simp]: "keys (a @ b) = keys a @ keys b"
  by (simp add: keys_def)

lemma keys_emit [simp]: "keys (emit k v) = (if v = None then [] else [k])"
  by (cases v) simp_all

lemma dict_get_dict_set:
  "dict_get (dict_set d k v) k' = (if k' = k then Some v else dict_get d k')"
  by (induction d) (auto simp: dict_get_def)

lemma dict_set_fresh: "k \<notin> set (keys d) \<Longrightarrow> dict_set d k v = d @ [(k, v)]"
  by (induction d) (auto simp: keys_def)

section \<open>The methods follow the field-emission rule\<close>

text \<open>
  \<open>KanbanTask\<close>, \<open>ColumnMetadata\<close> and \<open>KanbanData\<close> emit their required fields and then
  one entry for each optional field that is set, in the order of the source.
  \<open>TimerEntry\<close> is not of this form: it has both keys always.
\<close>

lemma KanbanTask_to_dict_emit:
  "KanbanTask_to_dict t =
     [(str ''task'', PStr (task t))]
     @ emit (str ''status'') (map_option PStr (status t))
     @ emit (str ''timerEntries'')
         (map_option (\<lambda>es. PList (map (\<lambda>e. PDict (TimerEntry_to_dict e)) es)) (timer_entries t))
     @ emit (str ''targetTime'') (map_option PStr (target_time t))
     @ emit (str ''tags'') (map_option (\<lambda>ts. PList (map PStr ts)) (tags t))
     @ emit (str ''dueDate'') (map_option PStr (due_date t))
     @ emit (str ''updateDateTime'') (map_option PStr (update_date_time t))"
  unfolding KanbanTask_to_dict_def Let_def
  by (simp split: option.split)

lemma ColumnMetadata_to_dict_emit:
  "ColumnMetadata_to_dict m =
     [(str ''name'', PStr (name m)), (str ''state'', PStr (ColumnState_value (state m)))]
     @ emit (str ''icon'') (map_option PStr (icon m))
     @ emit (str ''sortField'') (map_option (\<lambda>f. PStr (SortField_value f)) (sort_field m))
     @ emit (str ''sortOrder'') (map_option (\<lambda>ord. PStr (SortOrder_value ord)) (sort_order m))
     @ emit (str ''manualSort'') (map_option PBool (manual_sort m))"
  unfolding ColumnMetadata_to_dict_def Let_def
  by (simp split: option.split)

lemma KanbanData_to_dict_emit:
  "KanbanData_to_dict d =
     emit (str ''tasks'')
         (map_option (\<lambda>ts. PList (map (\<lambda>t. PDict (KanbanTask_to_dict t)) ts)) (tasks d))
     @ emit (str ''columns'') (map_option (\<lambda>cs. PList (map PStr cs)) (columns d))
     @ emit (str ''columnMetadata'')
         (map_option (\<lambda>ms. PList (map (\<lambda>m. PDict (ColumnMetadata_to_dict m)) ms)) (column_metadata d))
     @ emit (str ''collapsedColumns'') (map_option (\<lambda>cs. PList (map PStr cs)) (collapsed_columns d))
     @ emit (str ''view'') (map_option (\<lambda>v. PStr (KanbanView_value v)) (view d))
     @ emit (str ''slimMode'') (map_option PBool (slim_mode d))
     @ emit (str ''columnWidths'')
         (map_option (\<lambda>ws. PDict (map (\<lambda>(k, w). (k, PInt w)) ws)) (column_widths d))"
  unfolding KanbanData_to_dict_def Let_def
  by (simp split: option.split)

section \<open>Looking up a wire key\<close>

lemma TimerEntry_get_startTime:
  "dict_get (TimerEntry_to_dict e) (str ''startTime'') = Some (PStr (start_time e))"
  by (simp add: TimerEntry_to_dict_def)

lemma TimerEntry_get_endTime:
  "dict_get (TimerEntry_to_dict e) (str ''endTime'')
     = Some (case end_time e of None \<Rightarrow> PNone | Some s \<Rightarrow> PStr s)"
  by (simp add: TimerEntry_to_dict_def)

lemma TimerEntry_keys: "keys (TimerEntry_to_dict e) = [str ''startTime'', str ''endTime'']"
  by (simp add: TimerEntry_to_dict_def)

lemma KanbanTask_get:
  "dict_get (KanbanTask_to_dict t) (str ''task'') = Some (PStr (task t))"
  "dict_get (KanbanTask_to_dict t) (str ''status'') = map_option PStr (status t)"
  "dict_get (KanbanTask_to_dict t) (str ''timerEntries'')
     = map_option (\<lambda>es. PList (map (\<lambda>e. PDict (TimerEntry_to_dict e)) es)) (timer_entries t)"
  "dict_get (KanbanTask_to_dict t) (str ''targetTime'') = map_option PStr (target_time t)"
  "dict_get (KanbanTask_to_dict t) (str ''tags'')
     = map_option (\<lambda>ts. PList (map PStr ts)) (tags t)"
  "dict_get (KanbanTask_to_dict t) (str ''dueDate'') = map_option PStr (due_date t)"
  "dict_get (KanbanTask_to_dict t) (str ''updateDateTime'') = map_option PStr (update_date_time t)"
  by (simp_all add: KanbanTask_to_dict_emit split: option.split)

lemma KanbanTask_keys:
  "keys (KanbanTask_to_dict t) =
     [str ''task'']
     @ (if status t = None then [] else [str ''status''])
     @ (if timer_entries t = None then [] else [str ''timerEntries''])
     @ (if target_time t = None then [] else [str ''targetTime''])
     @ (if tags t = None then [] else [str ''tags''])
     @ (if due_date t = None then [] else [str ''dueDate''])
     @ (if update_date_time t = None then [] else [str ''updateDateTime''])"
  by (simp add: KanbanTask_to_dict_emit)

lemma ColumnMetadata_get:
  "dict_get (ColumnMetadata_to_dict m) (str ''name'') = Some (PStr (name m))"
  "dict_get (ColumnMetadata_to_dict m) (str ''state'') = Some (PStr (ColumnState_value (state m)))"
  "dict_get (ColumnMetadata_to_dict m) (str ''icon'') = map_option PStr (icon m)"
  "dict_get (ColumnMetadata_to_dict m) (str ''sortField'')
     = map_option (\<lambda>f. PStr (SortField_value f)) (sort_field m)"
  "dict_get (ColumnMetadata_to_dict m) (str ''sortOrder'')
     = map_option (\<lambda>ord. PStr (SortOrder_value ord)) (sort_order m)"
  "dict_get (ColumnMetadata_to_dict m) (str ''manualSort'') = map_option PBool (manual_sort m)"
  by (simp_all add: ColumnMetadata_to_dict_emit split: option.split)

lemma ColumnMetadata_keys:
  "keys (ColumnMetadata_to_dict m) =
     [str ''name'', str ''state'']
     @ (if icon m = None then [] else [str ''icon''])
     @ (if sort_field m = None then [] else [str ''sortField''])
     @ (if sort_order m = None then [] else [str ''sortOrder''])
     @ (if manual_sort m = None then [] else [str ''manualSort''])"
  by (simp add: ColumnMetadata_to_dict_emit)

lemma KanbanData_get:
  "dict_get (KanbanData_to_dict d) (str ''tasks'')
     = map_option (\<lambda>ts. PList (map (\<lambda>t. PDict (KanbanTask_to_dict t)) ts)) (tasks d)"
  "dict_get (KanbanData_to_dict d) (str ''columns'')
     = map_option (\<lambda>cs. PList (map PStr cs)) (columns d)"
  "dict_get (KanbanData_to_dict d) (str ''columnMetadata'')
     = map_option (\<lambda>ms. PList (map (\<lambda>m. PDict (ColumnMetadata_to_dict m)) ms)) (column_metadata d)"
  "dict_get (KanbanData_to_dict d) (str ''collapsedColumns'')
     = map_option (\<lambda>cs. PList (map PStr cs)) (collapsed_columns d)"
  "dict_get (KanbanData_to_dict d) (str ''view'')
     = map_option (\<lambda>v. PStr (KanbanView_value v)) (view d)"
  "dict_get (KanbanData_to_dict d) (str ''slimMode'') = map_option PBool (slim_mode d)"
  "dict_get (KanbanData_to_dict d) (str ''columnWidths'')
     = map_option (\<lambda>ws. PDict (map (\<lambda>(k, w). (k, PInt w)) ws)) (column_widths d)"
  by (simp_all add: KanbanData_to_dict_emit split: option.split)

lemma KanbanData_keys:
  "keys (KanbanData_to_dict d) =
     (if tasks d = None then [] else [str ''tasks''])
     @ (if columns d = None then [] else [str ''columns''])
     @ (if column_metadata d = None then [] else [str ''columnMetadata''])
     @ (if collapsed_columns d = None then [] else [str ''collapsedColumns''])
     @ (if view d = None then [] else [str ''view''])
     @ (if slim_mode d = None then [] else [str ''slimMode''])
     @ (if column_widths d = None then [] else [str ''columnWidths''])"
  by (simp add: KanbanData_to_dict_emit)

section \<open>The text that \<open>json.dumps\<close> produces\<close>

lemma non_ascii_Nil [simp]: "non_ascii [] = []"
  by (simp add: non_ascii_def)

lemma non_ascii_Cons [simp]:
  "non_ascii (c # s) = (if 128 \<le> c then c # non_ascii s else non_ascii s)"
  by (simp add: non_ascii_def)

lemma non_ascii_append [simp]: "non_ascii (a @ b) = non_ascii a @ non_ascii b"
  by (simp add: non_ascii_def)

lemma non_ascii_concat: "non_ascii (concat xs) = concat (map non_ascii xs)"
  by (induction xs) simp_all

lemma non_ascii_replicate [simp]: "c < 128 \<Longrightarrow> non_ascii (replicate n c) = []"
  by (induction n) simp_all

lemma non_ascii_concat_replicate [simp]:
  "non_ascii i = [] \<Longrightarrow> non_ascii (concat (replicate n i)) = []"
  by (induction n) simp_all

lemma non_ascii_join:
  "non_ascii sep = [] \<Longrightarrow> non_ascii (join sep xs) = concat (map non_ascii xs)"
  by (induction sep xs rule: join.induct) simp_all

lemma non_ascii_digits [simp]: "non_ascii (digits n) = []"
proof (induction n rule: digits.induct)
  case (1 n)
  show ?case
  proof (cases "n < 10")
    case True
    then show ?thesis by (simp add: digits.simps [of n])
  next
    case False
    have "n mod 10 < 10" by simp
    with False 1 show ?thesis by (simp add: digits.simps [of n])
  qed
qed

lemma non_ascii_int_repr [simp]: "non_ascii (int_repr i) = []"
  by (simp add: int_repr_def)

lemma hexdigit_ascii: "d < 16 \<Longrightarrow> hexdigit d < 128"
  by (simp add: hexdigit_def)

lemma non_ascii_hex_digits [simp]: "non_ascii (hex_digits n) = []"
proof (induction n rule: hex_digits.induct)
  case (1 n)
  show ?case
  proof (cases "n < 16")
    case True
    then show ?thesis using hexdigit_ascii [of n] by (simp add: hex_digits.simps [of n])
  next
    case False
    have "hexdigit (n mod 16) < 128" by (rule hexdigit_ascii) simp
    with False 1 show ?thesis by (simp add: hex_digits.simps [of n])
  qed
qed

lemma non_ascii_format_04x [simp]: "non_ascii (format_04x n) = []"
  by (simp add: format_04x_def Let_def)

lemma ESCAPE_has_entry: "ESCAPE c \<Longrightarrow> \<exists>r. ESCAPE_DCT c = Some r \<and> non_ascii r = []"
  by (auto simp: ESCAPE_def ESCAPE_DCT_def)

lemma non_ascii_encode_basestring [simp]:
  "non_ascii (encode_basestring s) = non_ascii s"
proof -
  have "non_ascii (concat (map (\<lambda>c. if ESCAPE c
                              then (case ESCAPE_DCT c of Some r \<Rightarrow> r | None \<Rightarrow> [c])
                              else [c]) s)) = non_ascii s"
  proof (induction s)
    case Nil
    show ?case by simp
  next
    case (Cons c s)
    show ?case
    proof (cases "ESCAPE c")
      case True
      then obtain r where "ESCAPE_DCT c = Some r" "non_ascii r = []"
        using ESCAPE_has_entry by blast
      moreover from True have "c < 128" by (auto simp: ESCAPE_def)
      ultimately show ?thesis using True Cons by simp
    next
      case False
      with Cons show ?thesis by simp
    qed
  qed
  then show ?thesis by (simp add: encode_basestring_def)
qed

lemma encode_basestring_plain:
  "list_all (\<lambda>c. \<not> ESCAPE c) s \<Longrightarrow> encode_basestring s = [34] @ s @ [34]"
  by (induction s) (simp_all add: encode_basestring_def)

lemma non_ascii_iterencode:
  assumes "\<And>i. ind = Some i \<Longrightarrow> non_ascii i = []"
  shows "non_ascii (iterencode encode_basestring ind lvl v) = non_ascii (text_of v)"
proof (induction v arbitrary: lvl)
  case PNone
  show ?case by (simp add: str_def)
next
  case (PBool b)
  show ?case by (simp add: str_def)
next
  case (PInt i)
  show ?case by simp
next
  case (PStr s)
  show ?case by simp
next
  case (PList lst)
  show ?case
  proof (cases ind)
    case None
    with PList show ?thesis
      by (simp add: str_def non_ascii_join non_ascii_concat comp_def cong: map_cong)
  next
    case (Some i)
    with assms have "non_ascii i = []" by simp
    with Some PList show ?thesis
      by (simp add: str_def Let_def non_ascii_join non_ascii_concat comp_def cong: map_cong)
  qed
next
  case (PDict dct)
  have item: "non_ascii (iterencode encode_basestring ind l (snd kv)) = non_ascii (text_of (snd kv))"
    if "kv \<in> set dct" for kv l
    using PDict [of kv "snd kv" l] that by (cases kv) simp
  show ?case
  proof (cases ind)
    case None
    with item show ?thesis
      by (simp add: str_def non_ascii_join non_ascii_concat comp_def case_prod_unfold
            cong: map_cong)
  next
    case (Some i)
    with assms have "non_ascii i = []" by simp
    with Some item show ?thesis
      by (simp add: str_def Let_def non_ascii_join non_ascii_concat comp_def case_prod_unfold
            cong: map_cong)
  qed
qed

lemma non_ascii_dumps:
  "non_ascii (dumps v indent False) = non_ascii (text_of v)"
proof (cases indent)
  case None
  then show ?thesis
    using non_ascii_iterencode [of None 0 v] by (simp add: dumps_def)
next
  case (Some n)
  then show ?thesis
    using non_ascii_iterencode [of "Some (replicate (nat n) 32)" 0 v] by (simp add: dumps_def)
qed

lemma replicate_2: "replicate 2 x = [x, x]"
  by (simp add: numeral_2_eq_2)

lemmas dumps_eval =
  dumps_def encode_basestring_def ESCAPE_def ESCAPE_DCT_def int_repr_def digits.simps
  str_def Let_def replicate_2

lemma emoji_escaped_with_ensure_ascii:
  "dumps (PStr [128203]) indent True
   = [34, 92] @ str ''ud83d'' @ [92] @ str ''udccb'' @ [34]"
  by (simp add: dumps_def encode_basestring_ascii_def ESCAPE_ASCII_def replace_ascii_def
        ESCAPE_DCT_def format_04x_def hex_digits.simps hexdigit_def str_def Let_def)

lemma to_json_columns_text:
  \<open>to_json (KanbanData_init\<lparr>columns := Some [str ''A'', str ''B'']\<rparr>) (Some n)
   = str ''{\<newline>'' @ replicate (nat n) 32 @ str ''"columns": [\<newline>''
     @ replicate (2 * nat n) 32 @ str ''"A",\<newline>''
     @ replicate (2 * nat n) 32 @ str ''"B"\<newline>''
     @ replicate (nat n) 32 @ str '']\<newline>}''\<close>
  by (simp add: to_json_def KanbanData_to_dict_emit KanbanData_init_def dumps_eval
        replicate_add mult_2)

lemma to_json_emoji_text:
  \<open>to_json (KanbanData_init
       \<lparr>column_metadata := Some [(ColumnMetadata_init (str ''Backlog''))\<lparr>icon := Some [128203]\<rparr>]\<rparr>)
     None
   = str ''{\<newline>  "columnMetadata": [\<newline>    {\<newline>      "name": "Backlog",\<newline>      "state": "todo",\<newline>      "icon": "''
     @ [128203] @ str ''"\<newline>    }\<newline>  ]\<newline>}''\<close>
  by (simp add: to_json_def KanbanData_to_dict_emit KanbanData_init_def
        ColumnMetadata_to_dict_emit ColumnMetadata_init_def dumps_eval)


section \<open>Every line is indented by a multiple of the width\<close>

lemma split_lines_nonempty [simp]: "split_lines s \<noteq> []"
  by (induction s) (simp_all split: list.split)

lemma split_lines_Cons:
  "split_lines (c # s) =
     (if c = 10 then [] # split_lines s
      else (c # hd (split_lines s)) # tl (split_lines s))"
  by (cases "split_lines s") simp_all

lemmas split_lines_eval = split_lines.simps

declare split_lines.simps(2) [simp del]
declare split_lines_Cons [simp]

lemma split_lines_single: "10 \<notin> set p \<Longrightarrow> split_lines p = [p]"
  by (induction p) simp_all

lemma split_lines_append:
  "split_lines (a @ b)
   = butlast (split_lines a) @ [last (split_lines a) @ hd (split_lines b)] @ tl (split_lines b)"
proof (induction a)
  case Nil
  show ?case by simp
next
  case (Cons c a)
  show ?case
  proof (cases "c = 10")
    case True
    with Cons show ?thesis by simp
  next
    case False
    show ?thesis
    proof (cases "split_lines a")
      case Nil
      then show ?thesis by simp
    next
      case (Cons l ls)
      with False Cons.IH show ?thesis by (cases ls) simp_all
    qed
  qed
qed

lemma leading_spaces_append_visible:
  "visible l \<Longrightarrow> leading_spaces (l @ z) = leading_spaces l"
  unfolding visible_def leading_spaces_def
  by (induction l) auto

lemma visible_append: "visible l \<Longrightarrow> visible (l @ z)"
  unfolding visible_def leading_spaces_def
  by (induction l) auto

lemma leading_spaces_replicate_append:
  "z \<noteq> [] \<Longrightarrow> hd z \<noteq> 32 \<Longrightarrow> leading_spaces (replicate k 32 @ z) = k"
  unfolding leading_spaces_def by (induction k) (auto simp: neq_Nil_conv)

lemma visible_replicate_append:
  "z \<noteq> [] \<Longrightarrow> hd z \<noteq> 32 \<Longrightarrow> visible (replicate k 32 @ z)"
  unfolding visible_def leading_spaces_def by (induction k) (auto simp: neq_Nil_conv)

lemma indented_line_append: "indented_line w l \<Longrightarrow> indented_line w (l @ z)"
  by (simp add: indented_line_def visible_append leading_spaces_append_visible)

lemma indented_single: "10 \<notin> set p \<Longrightarrow> p \<noteq> [] \<Longrightarrow> hd p \<noteq> 32 \<Longrightarrow> well_indented w p"
  by (simp add: well_indented_def split_lines_single)

lemma indented_append:
  assumes "well_indented w a" "well_indented w b"
  shows "well_indented w (a @ b)"
proof (cases "split_lines a")
  case Nil
  then show ?thesis by simp
next
  case (Cons f ls)
  show ?thesis
  proof (cases ls rule: rev_cases)
    case Nil
    with Cons assms show ?thesis
      by (simp add: well_indented_def split_lines_append)
  next
    case (snoc ls' l)
    with Cons assms show ?thesis
      by (simp add: well_indented_def split_lines_append indented_line_append)
  qed
qed

lemma indented_newline:
  assumes "well_indented w a" "well_indented w b" "w dvd k"
  shows "well_indented w (a @ 10 # replicate k 32 @ b)"
proof -
  have h: "hd (split_lines b) \<noteq> []" "hd (hd (split_lines b)) \<noteq> 32"
    using assms(2) by (simp_all add: well_indented_def)
  have rep: "split_lines (replicate k 32 @ b)
      = (replicate k 32 @ hd (split_lines b)) # tl (split_lines b)"
    by (simp add: split_lines_append [of "replicate k 32" b] split_lines_single)
  have g: "indented_line w (replicate k 32 @ hd (split_lines b))"
    using h assms(3)
    by (simp add: indented_line_def visible_replicate_append leading_spaces_replicate_append)
  have "split_lines (a @ 10 # replicate k 32 @ b)
      = (butlast (split_lines a) @ [last (split_lines a)])
        @ (replicate k 32 @ hd (split_lines b)) # tl (split_lines b)"
    by (simp add: split_lines_append [of a] rep)
  then have "split_lines (a @ 10 # replicate k 32 @ b)
      = split_lines a @ (replicate k 32 @ hd (split_lines b)) # tl (split_lines b)"
    by (simp only: append_butlast_last_id [OF split_lines_nonempty])
  with assms(1,2) g show ?thesis
    by (cases "split_lines a") (simp_all add: well_indented_def)
qed

lemma indented_join:
  assumes "list_all (well_indented w) xs" "xs \<noteq> []" "w dvd k"
  shows "well_indented w (join (str '','' @ 10 # replicate k 32) xs)"
  using assms
proof (induction "str '','' @ 10 # replicate k 32" xs rule: join.induct)
  case 1
  then show ?case by simp
next
  case (2 x)
  then show ?case by simp
next
  case (3 x y ys)
  have "well_indented w (x @ str '','')"
    using 3 by (simp add: indented_append indented_single str_def)
  moreover have "well_indented w (join (str '','' @ 10 # replicate k 32) (y # ys))"
    using 3 by simp
  ultimately have "well_indented w ((x @ str '','') @ 10 # replicate k 32 @ join (str '','' @ 10 # replicate k 32) (y # ys))"
    using 3 by (intro indented_newline) simp_all
  then show ?case by simp
qed

lemma digits_chars: "digits n \<noteq> [] \<and> (\<forall>c \<in> set (digits n). 48 \<le> c)"
proof (induction n rule: digits.induct)
  case (1 n)
  show ?case
  proof (cases "n < 10")
    case True
    then show ?thesis by (simp add: digits.simps [of n])
  next
    case False
    with 1 show ?thesis by (simp add: digits.simps [of n])
  qed
qed

lemma hex_digits_chars: "\<forall>c \<in> set (hex_digits n). 48 \<le> c"
proof (induction n rule: hex_digits.induct)
  case (1 n)
  show ?case
  proof (cases "n < 16")
    case True
    then show ?thesis by (simp add: hex_digits.simps [of n] hexdigit_def)
  next
    case False
    with 1 show ?thesis by (simp add: hex_digits.simps [of n] hexdigit_def)
  qed
qed

lemma format_04x_no_newline: "10 \<notin> set (format_04x n)"
  using hex_digits_chars [of n] by (fastforce simp: format_04x_def Let_def)

lemma ESCAPE_DCT_no_newline: "ESCAPE_DCT c = Some r \<Longrightarrow> 10 \<notin> set r"
  using format_04x_no_newline [of c] by (auto simp: ESCAPE_DCT_def split: if_splits)

lemma encode_basestring_no_newline: "10 \<notin> set (encode_basestring s)"
proof -
  have "10 \<notin> set (if ESCAPE c then (case ESCAPE_DCT c of Some r \<Rightarrow> r | None \<Rightarrow> [c]) else [c])"
    for c
  proof (cases "ESCAPE c")
    case True
    then obtain r where "ESCAPE_DCT c = Some r"
      using ESCAPE_has_entry by blast
    with True show ?thesis
      using ESCAPE_DCT_no_newline [of c r] by simp
  next
    case False
    then show ?thesis by (auto simp: ESCAPE_def)
  qed
  then show ?thesis
    unfolding encode_basestring_def by (induction s) simp_all
qed

lemma indented_encode_basestring: "well_indented w (encode_basestring s)"
  by (rule indented_single) (simp_all add: encode_basestring_no_newline, simp_all add: encode_basestring_def)

lemma indented_int_repr: "well_indented w (int_repr i)"
proof (rule indented_single)
  show "10 \<notin> set (int_repr i)"
    using digits_chars [of "nat i"] digits_chars [of "nat (- i)"]
    by (auto simp: int_repr_def)
  show "int_repr i \<noteq> []"
    using digits_chars by (simp add: int_repr_def)
  show "hd (int_repr i) \<noteq> 32"
    using digits_chars [of "nat i"] by (cases "digits (nat i)") (auto simp: int_repr_def)
qed

lemma concat_replicate_spaces:
  "concat (replicate m (replicate w c)) = replicate (m * w) c"
  by (induction m) (simp_all add: replicate_add)

lemma indented_iterencode:
  "well_indented w (iterencode encode_basestring (Some (replicate w 32)) lvl v)"
proof (induction v arbitrary: lvl)
  case PNone
  show ?case by (simp add: indented_single str_def)
next
  case (PBool b)
  show ?case by (simp add: indented_single str_def)
next
  case (PInt i)
  show ?case by (simp add: indented_int_repr)
next
  case (PStr s)
  show ?case by (simp add: indented_encode_basestring)
next
  case (PList lst)
  show ?case
  proof (cases "lst = []")
    case True
    then show ?thesis by (simp add: indented_single str_def)
  next
    case False
    let ?items = "map (iterencode encode_basestring (Some (replicate w 32)) (lvl + 1)) lst"
    let ?k = "(lvl + 1) * w"
    have "list_all (well_indented w) ?items"
      using PList by (simp add: list_all_iff)
    with False have j: "well_indented w (join (str '','' @ 10 # replicate ?k 32) ?items)"
      by (intro indented_join) simp_all
    have opened: "well_indented w (str ''['' @ 10 # replicate ?k 32 @ join (str '','' @ 10 # replicate ?k 32) ?items)"
      by (rule indented_newline [OF _ j]) (simp_all add: indented_single str_def)
    have "well_indented w ((str ''['' @ 10 # replicate ?k 32 @ join (str '','' @ 10 # replicate ?k 32) ?items)
        @ 10 # replicate (lvl * w) 32 @ str '']'')"
      by (rule indented_newline [OF opened]) (simp_all add: indented_single str_def)
    then show ?thesis
      using False by (simp add: Let_def concat_replicate_spaces replicate_add)
  qed
next
  case (PDict dct)
  show ?case
  proof (cases "dct = []")
    case True
    then show ?thesis by (simp add: indented_single str_def)
  next
    case False
    let ?items = "map (\<lambda>(k, v). encode_basestring k @ str '': ''
        @ iterencode encode_basestring (Some (replicate w 32)) (lvl + 1) v) dct"
    let ?k = "(lvl + 1) * w"
    have "well_indented w (encode_basestring k @ str '': ''
        @ iterencode encode_basestring (Some (replicate w 32)) (lvl + 1) v)"
      if "(k, v) \<in> set dct" for k v
    proof -
      have "well_indented w (iterencode encode_basestring (Some (replicate w 32)) (lvl + 1) v)"
        using PDict [of "(k, v)" v "lvl + 1"] that by simp
      moreover have "well_indented w (str '': '')"
        by (simp add: indented_single str_def)
      ultimately show ?thesis
        by (intro indented_append indented_encode_basestring)
    qed
    then have "list_all (well_indented w) ?items"
      by (auto simp: list_all_iff)
    with False have j: "well_indented w (join (str '','' @ 10 # replicate ?k 32) ?items)"
      by (intro indented_join) simp_all
    have opened: "well_indented w (str ''{'' @ 10 # replicate ?k 32 @ join (str '','' @ 10 # replicate ?k 32) ?items)"
      by (rule indented_newline [OF _ j]) (simp_all add: indented_single str_def)
    have "well_indented w ((str ''{'' @ 10 # replicate ?k 32 @ join (str '','' @ 10 # replicate ?k 32) ?items)
        @ 10 # replicate (lvl * w) 32 @ str ''}'')"
      by (rule indented_newline [OF opened]) (simp_all add: indented_single str_def)
    then show ?thesis
      using False by (simp add: Let_def concat_replicate_spaces replicate_add)
  qed
qed

lemma indented_lines:
  assumes "well_indented w t" "l \<in> set (split_lines t)"
  shows "w dvd leading_spaces l"
proof (cases "split_lines t")
  case Nil
  then show ?thesis by simp
next
  case (Cons f ls)
  show ?thesis
  proof (cases "l = f")
    case True
    with Cons assms(1) have "f \<noteq> []" "hd f \<noteq> 32"
      by (simp_all add: well_indented_def)
    then have "leading_spaces f = 0"
      by (cases f) (simp_all add: leading_spaces_def)
    with True show ?thesis by simp
  next
    case False
    with Cons assms have "indented_line w l"
      by (auto simp: well_indented_def list_all_iff)
    then show ?thesis by (simp add: indented_line_def)
  qed
qed

lemma dumps_lines_indented:
  "\<forall>l \<in> set (split_lines (dumps v (Some n) False)). nat n dvd leading_spaces l"
  using indented_lines [OF indented_iterencode] by (simp add: dumps_def)

lemma to_json_columns_lines:
  \<open>split_lines (to_json (KanbanData_init\<lparr>columns := Some [str ''A'', str ''B'']\<rparr>) (Some 2))
   = [str ''{'', str ''  "columns": ['', str ''    "A",'', str ''    "B"'', str ''  ]'', str ''}'']\<close>
  by (simp add: to_json_def KanbanData_to_dict_emit KanbanData_init_def dumps_eval
        split_lines_eval del: split_lines_Cons)

section \<open>The reader gets the value back from the text\<close>

lemma skip_ws_append: "list_all is_ws w \<Longrightarrow> skip_ws (w @ t) = skip_ws t"
  by (induction w) (simp_all add: skip_ws_def)

lemma skip_ws_Cons: "\<not> is_ws c \<Longrightarrow> skip_ws (c # r) = c # r"
  by (simp add: skip_ws_def)

lemma value_start_not_ws: "value_start c \<Longrightarrow> \<not> is_ws c"
  by (auto simp: value_start_def is_ws_def is_digit_def)

lemma unhex_hexdigit: "d < 16 \<Longrightarrow> unhex (hexdigit d) = Some d"
  by (auto simp: unhex_def hexdigit_def)

lemma format_04x_small:
  "c < 32 \<Longrightarrow> format_04x c = [48, 48, hexdigit (c div 16), hexdigit (c mod 16)]"
proof (cases "c < 16")
  case True
  then show ?thesis
    by (simp add: format_04x_def hex_digits.simps [of c] hexdigit_def numeral_3_eq_3)
next
  case False
  assume "c < 32"
  with False have d: "c div 16 = 1" by simp
  have "hex_digits 1 = [hexdigit 1]"
    by (subst hex_digits.simps) simp
  with False d have "hex_digits c = [hexdigit (c div 16), hexdigit (c mod 16)]"
    by (subst hex_digits.simps) simp
  then show ?thesis
    by (simp add: format_04x_def numeral_2_eq_2)
qed

lemma read_chars_esc:
  "read_chars (esc c @ t) = (case read_chars t of None \<Rightarrow> None | Some (s, rest) \<Rightarrow> Some (c # s, rest))"
proof (cases "ESCAPE c")
  case False
  then show ?thesis by (auto simp: esc_def ESCAPE_def)
next
  case True
  show ?thesis
  proof (cases "c = 92 \<or> c = 34 \<or> c = 8 \<or> c = 12 \<or> c = 10 \<or> c = 13 \<or> c = 9")
    case True
    then show ?thesis
      by (auto simp: esc_def ESCAPE_def ESCAPE_DCT_def unescape_def)
  next
    case False
    with True have small: "c < 32" by (auto simp: ESCAPE_def)
    have h: "c div 16 < 16" "c mod 16 < 16" using small by simp_all
    have e: "esc c = [92, 117, 48, 48, hexdigit (c div 16), hexdigit (c mod 16)]"
      using False small True by (simp add: esc_def ESCAPE_DCT_def format_04x_small)
    have z: "unhex 48 = Some 0" by (simp add: unhex_def)
    show ?thesis
      by (cases "read_chars t") (auto simp: e z unhex_hexdigit [OF h(1)] unhex_hexdigit [OF h(2)])
  qed
qed

lemma read_chars_body:
  "read_chars (concat (map esc s) @ 34 # rest) = Some (s, rest)"
  by (induction s) (simp_all add: read_chars_esc)

lemma encode_basestring_esc: "encode_basestring s = 34 # concat (map esc s) @ [34]"
  by (simp add: encode_basestring_def esc_def [abs_def])

lemma digits_all: "list_all is_digit (digits n)"
proof (induction n rule: digits.induct)
  case (1 n)
  show ?case
  proof (cases "n < 10")
    case True
    then show ?thesis by (simp add: digits.simps [of n] is_digit_def)
  next
    case False
    have "n mod 10 < 10" by simp
    then have "is_digit (48 + n mod 10)" unfolding is_digit_def by linarith
    with False 1 show ?thesis by (simp add: digits.simps [of n])
  qed
qed

lemma digits_nonempty: "digits n \<noteq> []"
  by (subst digits.simps) simp

lemma digits_value_snoc: "digits_value (a @ [d]) = 10 * digits_value a + (d - 48)"
  by (simp add: digits_value_def)

lemma digits_value_digits: "digits_value (digits n) = n"
proof (induction n rule: digits.induct)
  case (1 n)
  show ?case
  proof (cases "n < 10")
    case True
    then show ?thesis by (simp add: digits.simps [of n] digits_value_def)
  next
    case False
    with 1 show ?thesis by (simp add: digits.simps [of n] digits_value_snoc)
  qed
qed

lemma digits_leading_zero: "hd (digits n) = 48 \<Longrightarrow> digits n = [48]"
proof (induction n rule: digits.induct)
  case (1 n)
  show ?case
  proof (cases "n < 10")
    case True
    with 1(2) show ?thesis by (auto simp: digits.simps [of n] digits.simps [of 0])
  next
    case False
    then have "hd (digits n) = hd (digits (n div 10))"
      by (simp add: digits.simps [of n] digits_nonempty)
    with 1 False have "digits (n div 10) = [48]" by simp
    then have "digits_value (digits (n div 10)) = 0" by (simp add: digits_value_def)
    then have "n div 10 = 0" by (simp add: digits_value_digits)
    with False show ?thesis by simp
  qed
qed

lemma takeWhile_digits:
  "no_digit_start rest \<Longrightarrow> takeWhile is_digit (digits n @ rest) = digits n"
  using digits_all [of n]
  by (cases rest) (simp_all add: no_digit_start_def takeWhile_append list_all_iff
        takeWhile_eq_all_conv [THEN iffD2])

lemma dropWhile_digits:
  "no_digit_start rest \<Longrightarrow> dropWhile is_digit (digits n @ rest) = rest"
  using digits_all [of n]
  by (cases rest) (simp_all add: no_digit_start_def dropWhile_append list_all_iff
        dropWhile_eq_Nil_conv [THEN iffD2])

lemma read_digits_digits:
  "no_digit_start rest \<Longrightarrow> read_digits (digits n @ rest) = Some (n, rest)"
  using digits_leading_zero [of n] digits_nonempty [of n]
  by (auto simp: read_digits_def Let_def takeWhile_digits dropWhile_digits digits_value_digits)

lemma ws_concat_replicate: "list_all is_ws i \<Longrightarrow> list_all is_ws (concat (replicate k i))"
  by (induction k) simp_all

lemma ws_chars [simp]:
  "is_ws 32" "is_ws 10" "\<not> is_ws 44" "\<not> is_ws 93" "\<not> is_ws 125" "\<not> is_ws 34"
  "\<not> is_ws 58" "\<not> is_ws 45" "\<not> is_ws 110" "\<not> is_ws 116" "\<not> is_ws 102"
  "\<not> is_ws 91" "\<not> is_ws 123"
  by (simp_all add: is_ws_def)

lemma digit_chars [simp]:
  "\<not> is_digit 44" "\<not> is_digit 93" "\<not> is_digit 125" "\<not> is_digit 32" "\<not> is_digit 10"
  by (simp_all add: is_digit_def)

lemma no_digit_start_simps [simp]:
  "no_digit_start []"
  "no_digit_start (c # r) \<longleftrightarrow> \<not> is_digit c"
  by (simp_all add: no_digit_start_def)

lemma no_digit_start_ws:
  "list_all is_ws w \<Longrightarrow> no_digit_start t \<Longrightarrow> no_digit_start (w @ t)"
  by (cases w) (auto simp: is_ws_def is_digit_def)

lemma int_repr_start: "\<exists>c r. int_repr i = c # r \<and> value_start c"
proof (cases "i < 0")
  case True
  then show ?thesis by (simp add: int_repr_def value_start_def)
next
  case False
  obtain c r where "digits (nat i) = c # r"
    using digits_nonempty [of "nat i"] by (cases "digits (nat i)") auto
  moreover from this have "is_digit c"
    using digits_all [of "nat i"] by simp
  ultimately show ?thesis
    using False by (simp add: int_repr_def value_start_def)
qed

lemma iterencode_start:
  "\<exists>c r. iterencode encode_basestring ind lvl v = c # r \<and> value_start c"
proof (cases v)
  case (PInt i)
  then show ?thesis using int_repr_start [of i] by simp
next
  case (PList lst)
  then show ?thesis
    by (cases ind) (auto simp: str_def value_start_def Let_def)
next
  case (PDict dct)
  then show ?thesis
    by (cases ind) (auto simp: str_def value_start_def Let_def)
qed (auto simp: str_def value_start_def encode_basestring_def)

lemma iterencode_length: "0 < length (iterencode encode_basestring ind lvl v)"
  using iterencode_start [of ind lvl v] by auto

lemma read_value_int:
  assumes "no_digit_start rest" "list_all is_ws w"
  shows "read_value (Suc f) (w @ int_repr i @ rest) = Some (PInt i, rest)"
proof (cases "i < 0")
  case True
  then show ?thesis
    using assms
    by (simp add: int_repr_def skip_ws_append skip_ws_Cons read_digits_digits)
next
  case False
  obtain c r where cr: "digits (nat i) = c # r"
    using digits_nonempty [of "nat i"] by (cases "digits (nat i)") auto
  then have d: "is_digit c"
    using digits_all [of "nat i"] by simp
  then have nw: "\<not> is_ws c" and ne: "c \<noteq> 110" "c \<noteq> 116" "c \<noteq> 102" "c \<noteq> 34" "c \<noteq> 91"
      "c \<noteq> 123" "c \<noteq> 45"
    by (auto simp: is_digit_def is_ws_def)
  have "read_digits (c # r @ rest) = Some (nat i, rest)"
    using read_digits_digits [OF assms(1), of "nat i"] cr by simp
  then show ?thesis
    using False assms(2) cr nw ne
    by (simp add: int_repr_def skip_ws_append skip_ws_Cons)
qed

lemma read_items_join:
  assumes elems: "\<And>x g w r. x \<in> set xs \<Longrightarrow> length (T x) \<le> g \<Longrightarrow> list_all is_ws w
            \<Longrightarrow> no_digit_start r \<Longrightarrow> read_value g (w @ T x @ r) = Some (x, r)"
    and pos: "\<And>x. x \<in> set xs \<Longrightarrow> 0 < length (T x)"
    and "xs \<noteq> []" "list_all is_ws w" "list_all is_ws B" "list_all is_ws C"
    and "length (join (44 # B) (map T xs)) < f"
  shows "read_items f (w @ join (44 # B) (map T xs) @ C @ 93 # rest) = Some (xs, rest)"
  using assms
proof (induction xs arbitrary: f w)
  case Nil
  then show ?case by simp
next
  case (Cons x xs)
  obtain g where f: "f = Suc g"
    using Cons.prems(7) by (cases f) auto
  show ?case
  proof (cases xs)
    case Nil
    have "read_value g (w @ T x @ (C @ 93 # rest)) = Some (x, C @ 93 # rest)"
      using Cons.prems(4,6,7) Nil f
      by (intro Cons.prems(1)) (simp_all add: no_digit_start_ws)
    then show ?thesis
      using Nil f Cons.prems(6) by (simp add: skip_ws_append skip_ws_Cons)
  next
    case (Cons y ys)
    let ?tail = "join (44 # B) (map T (y # ys)) @ C @ 93 # rest"
    have px: "0 < length (T x)" using Cons.prems(2) by simp
    have "read_value g (w @ T x @ (44 # B @ ?tail)) = Some (x, 44 # B @ ?tail)"
      using Cons.prems(4,7) Cons f
      by (intro Cons.prems(1)) (simp_all add:)
    moreover have "read_items g (B @ ?tail) = Some (xs, rest)"
      unfolding Cons [symmetric]
    proof (rule Cons.IH)
      show "xs \<noteq> []" using Cons by simp
      show "length (join (44 # B) (map T xs)) < g"
        using Cons.prems(7) Cons f px by simp
    qed (use Cons.prems in auto)
    ultimately show ?thesis
      using Cons f by (simp add: skip_ws_Cons)
  qed
qed

lemma read_members_join:
  assumes elems: "\<And>k x g w r. (k, x) \<in> set kvs \<Longrightarrow> length (T x) \<le> g \<Longrightarrow> list_all is_ws w
            \<Longrightarrow> no_digit_start r \<Longrightarrow> read_value g (w @ T x @ r) = Some (x, r)"
    and "kvs \<noteq> []" "list_all is_ws w" "list_all is_ws B" "list_all is_ws C"
    and "length (join (44 # B) (map (\<lambda>(k, x). encode_basestring k @ str '': '' @ T x) kvs)) < f"
  shows "read_members f
           (w @ join (44 # B) (map (\<lambda>(k, x). encode_basestring k @ str '': '' @ T x) kvs)
              @ C @ 125 # rest)
         = Some (kvs, rest)"
  using assms
proof (induction kvs arbitrary: f w)
  case Nil
  then show ?case by simp
next
  case (Cons kx kvs)
  obtain k x where kx: "kx = (k, x)" by (cases kx)
  obtain g where f: "f = Suc g"
    using Cons.prems(6) by (cases f) auto
  have key: "read_chars (concat (map esc k) @ 34 # t) = Some (k, t)" for t
    by (rule read_chars_body)
  show ?case
  proof (cases kvs)
    case Nil
    have "read_value g ([32] @ T x @ (C @ 125 # rest)) = Some (x, C @ 125 # rest)"
      using Cons.prems(5,6) Nil f kx
      by (intro Cons.prems(1) [of k])
         (simp_all add: no_digit_start_ws encode_basestring_esc str_def)
    then show ?thesis
      using Nil f kx Cons.prems(3,5) key
      by (simp add: skip_ws_append skip_ws_Cons encode_basestring_esc str_def)
  next
    case (Cons ky kys)
    let ?M = "\<lambda>(k, x). encode_basestring k @ str '': '' @ T x"
    let ?tail = "join (44 # B) (map ?M (ky # kys)) @ C @ 125 # rest"
    have "read_value g ([32] @ T x @ (44 # B @ ?tail)) = Some (x, 44 # B @ ?tail)"
      using Cons.prems(6) Cons f kx
      by (intro Cons.prems(1) [of k])
         (simp_all add: encode_basestring_esc str_def)
    moreover have "read_members g (B @ ?tail) = Some (kvs, rest)"
      unfolding Cons [symmetric]
    proof (rule Cons.IH [OF _ _ Cons.prems(4) Cons.prems(4) Cons.prems(5)])
      show "kvs \<noteq> []" using Cons by simp
      show "length (join (44 # B) (map ?M kvs)) < g"
        using Cons.prems(6) Cons f kx by (simp add: encode_basestring_esc)
      show "read_value g' (w' @ T x' @ r') = Some (x', r')"
        if "(k', x') \<in> set kvs" "length (T x') \<le> g'" "list_all is_ws w'" "no_digit_start r'"
        for k' x' g' w' r'
        using that by (intro Cons.prems(1) [of k']) simp_all
    qed
    ultimately show ?thesis
      using Cons f kx Cons.prems(3) key
      by (simp add: skip_ws_append skip_ws_Cons encode_basestring_esc str_def)
  qed
qed

lemma list_shape:
  assumes "\<And>i. ind = Some i \<Longrightarrow> list_all is_ws i" "lst \<noteq> []"
  obtains A B C l where "list_all is_ws A" "list_all is_ws B" "list_all is_ws C"
    "iterencode encode_basestring ind lvl (PList lst)
       = 91 # A @ join (44 # B) (map (iterencode encode_basestring ind l) lst) @ C @ [93]"
proof (cases ind)
  case None
  with assms(2) show ?thesis
    by (intro that [of "[]" "[32]" "[]" lvl]) (simp_all add: str_def)
next
  case (Some i)
  with assms(1) have "list_all is_ws i" by simp
  with Some assms(2) show ?thesis
    by (intro that [of "10 # concat (replicate (lvl + 1) i)" "10 # concat (replicate (lvl + 1) i)"
          "10 # concat (replicate lvl i)" "lvl + 1"])
       (simp_all add: str_def Let_def ws_concat_replicate)
qed

lemma dict_shape:
  assumes "\<And>i. ind = Some i \<Longrightarrow> list_all is_ws i" "dct \<noteq> []"
  obtains A B C l where "list_all is_ws A" "list_all is_ws B" "list_all is_ws C"
    "iterencode encode_basestring ind lvl (PDict dct)
       = 123 # A @ join (44 # B)
           (map (\<lambda>(k, x). encode_basestring k @ str '': '' @ iterencode encode_basestring ind l x) dct)
         @ C @ [125]"
proof (cases ind)
  case None
  with assms(2) show ?thesis
    by (intro that [of "[]" "[32]" "[]" lvl]) (simp_all add: str_def)
next
  case (Some i)
  with assms(1) have "list_all is_ws i" by simp
  with Some assms(2) show ?thesis
    by (intro that [of "10 # concat (replicate (lvl + 1) i)" "10 # concat (replicate (lvl + 1) i)"
          "10 # concat (replicate lvl i)" "lvl + 1"])
       (simp_all add: str_def Let_def ws_concat_replicate)
qed

lemma join_start:
  "xs \<noteq> [] \<Longrightarrow> \<exists>t. join sep (map T xs) = T (hd xs) @ t"
  by (induction sep "map T xs" arbitrary: xs rule: join.induct) auto

lemma value_start_chars:
  "value_start c \<Longrightarrow> c \<noteq> 93 \<and> c \<noteq> 125 \<and> c \<noteq> 44"
  by (auto simp: value_start_def is_digit_def)

lemma read_value_iterencode:
  assumes ind_ws: "\<And>i. ind = Some i \<Longrightarrow> list_all is_ws i"
  shows "length (iterencode encode_basestring ind lvl v) \<le> f \<Longrightarrow> list_all is_ws w
    \<Longrightarrow> no_digit_start rest
    \<Longrightarrow> read_value f (w @ iterencode encode_basestring ind lvl v @ rest) = Some (v, rest)"
proof (induction v arbitrary: lvl f w rest)
  case PNone
  then obtain g where "f = Suc g" by (cases f) (auto simp: str_def)
  with PNone show ?case
    by (simp add: str_def skip_ws_append skip_ws_Cons)
next
  case (PBool b)
  then obtain g where "f = Suc g" by (cases f) (auto simp: str_def split: if_splits)
  with PBool show ?case
    by (cases b) (simp_all add: str_def skip_ws_append skip_ws_Cons)
next
  case (PInt i)
  then obtain g where "f = Suc g"
    using int_repr_start [of i] by (cases f) auto
  moreover have "read_value (Suc g) (w @ int_repr i @ rest) = Some (PInt i, rest)"
    using PInt.prems by (intro read_value_int)
  ultimately show ?case by (simp del: read_value.simps)
next
  case (PStr s)
  then obtain g where "f = Suc g" by (cases f) (auto simp: encode_basestring_esc)
  with PStr show ?case
    using read_chars_body [of s rest]
    by (simp add: encode_basestring_esc skip_ws_append skip_ws_Cons)
next
  case (PList lst)
  show ?case
  proof (cases "lst = []")
    case True
    with PList.prems obtain g where "f = Suc g" by (cases f) (auto simp: str_def)
    with True PList.prems show ?thesis
      by (simp add: str_def skip_ws_append skip_ws_Cons)
  next
    case False
    obtain A B C l where sh: "list_all is_ws A" "list_all is_ws B" "list_all is_ws C"
      "iterencode encode_basestring ind lvl (PList lst)
         = 91 # A @ join (44 # B) (map (iterencode encode_basestring ind l) lst) @ C @ [93]"
      using list_shape [OF ind_ws False] by blast
    let ?T = "iterencode encode_basestring ind l"
    let ?J = "join (44 # B) (map ?T lst)"
    obtain g where f: "f = Suc g" and len: "length ?J < g"
      using PList.prems(1) sh(4) by (cases f) auto
    obtain t where "?J = ?T (hd lst) @ t"
      using join_start [OF False] by blast
    moreover obtain c r where "?T (hd lst) = c # r" "value_start c"
      using iterencode_start by blast
    ultimately have J: "?J = c # r @ t" and c: "\<not> is_ws c" "c \<noteq> 93"
      using value_start_not_ws value_start_chars by auto
    have items: "read_items g (A @ ?J @ C @ 93 # rest) = Some (lst, rest)"
    proof (rule read_items_join [OF _ _ False sh(1,2,3) len])
      show "read_value g' (w' @ ?T x @ r') = Some (x, r')"
        if "x \<in> set lst" "length (?T x) \<le> g'" "list_all is_ws w'" "no_digit_start r'"
        for x g' w' r'
        using that by (intro PList.IH) simp_all
      show "0 < length (?T x)" for x
        by (rule iterencode_length)
    qed
    have "skip_ws (A @ ?J @ C @ 93 # rest) = c # r @ t @ C @ 93 # rest"
      using sh(1) c(1) by (simp add: J skip_ws_append skip_ws_Cons)
    with items c(2) show ?thesis
      using PList.prems(2) f by (simp add: sh(4) skip_ws_append skip_ws_Cons del: iterencode.simps)
  qed
next
  case (PDict dct)
  show ?case
  proof (cases "dct = []")
    case True
    with PDict.prems obtain g where "f = Suc g" by (cases f) (auto simp: str_def)
    with True PDict.prems show ?thesis
      by (simp add: str_def skip_ws_append skip_ws_Cons)
  next
    case False
    obtain A B C l where sh: "list_all is_ws A" "list_all is_ws B" "list_all is_ws C"
      "iterencode encode_basestring ind lvl (PDict dct)
         = 123 # A @ join (44 # B)
             (map (\<lambda>(k, x). encode_basestring k @ str '': '' @ iterencode encode_basestring ind l x) dct)
           @ C @ [125]"
      using dict_shape [OF ind_ws False] by blast
    let ?T = "iterencode encode_basestring ind l"
    let ?M = "\<lambda>(k, x). encode_basestring k @ str '': '' @ ?T x"
    let ?J = "join (44 # B) (map ?M dct)"
    obtain g where f: "f = Suc g" and len: "length ?J < g"
      using PDict.prems(1) sh(4) by (cases f) auto
    obtain t where "?J = ?M (hd dct) @ t"
      using join_start [OF False, of "44 # B" ?M] by blast
    then obtain t' where J: "?J = 34 # t'"
      by (cases "hd dct") (auto simp: encode_basestring_esc)
    have members: "read_members g (A @ ?J @ C @ 125 # rest) = Some (dct, rest)"
    proof (rule read_members_join [OF _ False sh(1,2,3) len])
      show "read_value g' (w' @ ?T x @ r') = Some (x, r')"
        if "(k, x) \<in> set dct" "length (?T x) \<le> g'" "list_all is_ws w'" "no_digit_start r'"
        for k x g' w' r'
        using that PDict.IH [of "(k, x)" x] by simp
    qed
    have "skip_ws (A @ ?J @ C @ 125 # rest) = 34 # t' @ C @ 125 # rest"
      using sh(1) by (simp add: J skip_ws_append skip_ws_Cons)
    with members show ?thesis
      using PDict.prems(2) f by (simp add: sh(4) skip_ws_append skip_ws_Cons del: iterencode.simps)
  qed
qed

lemma loads_dumps: "loads (dumps v indent False) = Some v"
proof -
  let ?ind = "map_option (\<lambda>n. replicate (nat n) 32) indent"
  have "read_value (Suc (length (iterencode encode_basestring ?ind 0 v)))
          ([] @ iterencode encode_basestring ?ind 0 v @ [])
        = Some (v, [])"
    by (rule read_value_iterencode) (auto simp: list_all_iff)
  then show ?thesis
    by (simp add: loads_def dumps_def skip_ws_def)
qed

lemma loads_examples:
  \<open>loads (str ''[1, -20, true, false, null, {"a": "b"}]'')
     = Some (PList [PInt 1, PInt (- 20), PBool True, PBool False, PNone,
                    PDict [(str ''a'', PStr (str ''b''))]])\<close>
  \<open>loads (str ''[1 2]'') = None\<close>
  \<open>loads (str ''01'') = None\<close>
  \<open>loads (str ''True'') = None\<close>
  \<open>loads (str ''{"a": 1,}'') = None\<close>
  \<open>loads (str ''{"a" 1}'') = None\<close>
  \<open>loads (str ''[1] 2'') = None\<close>
  by code_simp+

section \<open>The lines of an indented text are the rows of its layout\<close>

lemma tail_text_simps [simp]:
  "tail_text w [] = []"
  "tail_text w (r # rs) = 10 # render w r @ tail_text w rs"
  "tail_text w (a @ b) = tail_text w a @ tail_text w b"
  by (simp_all add: tail_text_def)

lemma rows_nonempty [simp]: "rows lvl v \<noteq> []"
  by (cases v) simp_all

lemma rows_first_level: "fst (hd (rows lvl v)) = lvl"
  by (cases v) simp_all

lemma tail_text_add_last: "g \<noteq> [] \<Longrightarrow> tail_text w (add_last s g) = tail_text w g @ s"
  by (induction s g rule: add_last.induct) (simp_all add: render_def)

lemma tail_text_group:
  "g \<noteq> [] \<Longrightarrow> tail_text w g = 10 # replicate (fst (hd g) * w) 32 @ snd (hd g) @ tail_text w (tl g)"
  by (cases g) (simp_all add: render_def)

lemma tail_text_prefix_first:
  "g \<noteq> [] \<Longrightarrow> tail_text w (prefix_first p g)
     = 10 # replicate (fst (hd g) * w) 32 @ p @ snd (hd g) @ tail_text w (tl g)"
  by (cases g) (simp_all add: render_def)

lemma tail_text_commas:
  assumes "\<And>x. x \<in> set xs \<Longrightarrow> tail_text w (G x) = 10 # sp @ T x"
    and "\<And>x. x \<in> set xs \<Longrightarrow> G x \<noteq> []"
    and "xs \<noteq> []"
  shows "tail_text w (commas (map G xs)) = 10 # sp @ join (44 # 10 # sp) (map T xs)"
  using assms
proof (induction xs)
  case Nil
  then show ?case by simp
next
  case (Cons x xs)
  show ?case
  proof (cases xs)
    case Nil
    with Cons.prems show ?thesis by simp
  next
    case (Cons y ys)
    have "tail_text w (commas (map G xs)) = 10 # sp @ join (44 # 10 # sp) (map T xs)"
      using Cons Cons.prems by (intro Cons.IH) simp_all
    with Cons Cons.prems(1) [of x] Cons.prems(2) [of x] show ?thesis
      by (simp add: tail_text_add_last str_def)
  qed
qed

lemma iterencode_rows:
  "iterencode encode_basestring (Some (replicate w 32)) lvl v
   = snd (hd (rows lvl v)) @ tail_text w (tl (rows lvl v))"
proof (induction v arbitrary: lvl)
  case (PList lst)
  show ?case
  proof (cases "lst = []")
    case True
    then show ?thesis by simp
  next
    case False
    let ?sp = "replicate ((lvl + 1) * w) 32"
    have "tail_text w (commas (map (rows (lvl + 1)) lst))
        = 10 # ?sp @ join (44 # 10 # ?sp)
            (map (iterencode encode_basestring (Some (replicate w 32)) (lvl + 1)) lst)"
    proof (rule tail_text_commas [OF _ _ False])
      show "tail_text w (rows (lvl + 1) x)
          = 10 # ?sp @ iterencode encode_basestring (Some (replicate w 32)) (lvl + 1) x"
        if "x \<in> set lst" for x
        using PList [OF that, of "lvl + 1"] rows_first_level [of "lvl + 1" x]
        by (simp add: tail_text_group)
    qed simp
    with False show ?thesis
      by (simp add: Let_def str_def concat_replicate_spaces render_def replicate_add)
  qed
next
  case (PDict dct)
  show ?case
  proof (cases "dct = []")
    case True
    then show ?thesis by simp
  next
    case False
    let ?sp = "replicate ((lvl + 1) * w) 32"
    let ?G = "\<lambda>(k, v). prefix_first (encode_basestring k @ str '': '') (rows (lvl + 1) v)"
    let ?T = "\<lambda>(k, v). encode_basestring k @ str '': ''
        @ iterencode encode_basestring (Some (replicate w 32)) (lvl + 1) v"
    have "tail_text w (commas (map ?G dct)) = 10 # ?sp @ join (44 # 10 # ?sp) (map ?T dct)"
    proof (rule tail_text_commas [OF _ _ False])
      show "tail_text w (?G kv) = 10 # ?sp @ ?T kv" if "kv \<in> set dct" for kv
      proof (cases kv)
        case (Pair k x)
        with that show ?thesis
          using PDict [of kv x "lvl + 1"] rows_first_level [of "lvl + 1" x]
          by (simp add: tail_text_prefix_first)
      qed
      show "?G kv \<noteq> []" if "kv \<in> set dct" for kv
        by (cases kv) (simp add: neq_Nil_conv, metis rows_nonempty neq_Nil_conv prefix_first.simps(2) list.distinct(1))
    qed
    with False show ?thesis
      by (simp add: Let_def str_def concat_replicate_spaces render_def replicate_add)
  qed
qed simp_all

lemma row_ok_append: "row_ok c \<Longrightarrow> 10 \<notin> set s \<Longrightarrow> row_ok (c @ s)"
  by (auto simp: row_ok_def)

lemma row_ok_add_last:
  "list_all (\<lambda>r. row_ok (snd r)) g \<Longrightarrow> 10 \<notin> set s
   \<Longrightarrow> list_all (\<lambda>r. row_ok (snd r)) (add_last s g)"
  by (induction s g rule: add_last.induct) (simp_all add: row_ok_append)

lemma row_ok_commas:
  "list_all (list_all (\<lambda>r. row_ok (snd r))) gs \<Longrightarrow> list_all (\<lambda>r. row_ok (snd r)) (commas gs)"
  by (induction gs rule: commas.induct) (simp_all add: row_ok_add_last str_def)

lemma row_ok_prefix_first:
  "list_all (\<lambda>r. row_ok (snd r)) g \<Longrightarrow> row_ok p
   \<Longrightarrow> list_all (\<lambda>r. row_ok (snd r)) (prefix_first p g)"
  by (cases g) (auto simp: row_ok_def)

lemma row_ok_encode_basestring: "row_ok (encode_basestring s)"
  using encode_basestring_no_newline [of s] by (simp add: row_ok_def, simp add: encode_basestring_def)

lemma row_ok_int_repr: "row_ok (int_repr i)"
proof -
  have "10 \<notin> set (int_repr i)"
    using digits_chars [of "nat i"] digits_chars [of "nat (- i)"]
    by (auto simp: int_repr_def)
  moreover obtain c r where "int_repr i = c # r" "value_start c"
    using int_repr_start by blast
  ultimately show ?thesis
    using value_start_not_ws [of c] by (auto simp: row_ok_def)
qed

lemma rows_ok: "list_all (\<lambda>r. row_ok (snd r)) (rows lvl v)"
proof (induction v arbitrary: lvl)
  case PNone
  show ?case by (simp add: row_ok_def str_def)
next
  case (PBool b)
  show ?case by (simp add: row_ok_def str_def)
next
  case (PInt i)
  show ?case by (simp add: row_ok_int_repr)
next
  case (PStr s)
  show ?case by (simp add: row_ok_encode_basestring)
next
  case (PList lst)
  have "list_all (list_all (\<lambda>r. row_ok (snd r))) (map (rows (lvl + 1)) lst)"
    using PList by (simp add: list_all_iff)
  then have "list_all (\<lambda>r. row_ok (snd r)) (commas (map (rows (lvl + 1)) lst))"
    by (rule row_ok_commas)
  then show ?case by (simp add: row_ok_def str_def)
next
  case (PDict dct)
  let ?G = "\<lambda>(k, v). prefix_first (encode_basestring k @ str '': '') (rows (lvl + 1) v)"
  have "list_all (\<lambda>r. row_ok (snd r)) (?G kv)" if "kv \<in> set dct" for kv
  proof (cases kv)
    case (Pair k x)
    have "row_ok (encode_basestring k @ str '': '')"
      by (intro row_ok_append row_ok_encode_basestring) (simp add: str_def)
    with Pair that show ?thesis
      using PDict [of kv x "lvl + 1"] by (simp add: row_ok_prefix_first)
  qed
  then have "list_all (list_all (\<lambda>r. row_ok (snd r))) (map ?G dct)"
    by (simp add: list_all_iff)
  then have "list_all (\<lambda>r. row_ok (snd r)) (commas (map ?G dct))"
    by (rule row_ok_commas)
  then show ?case by (simp add: row_ok_def str_def)
qed

lemma split_lines_newline: "10 \<notin> set c \<Longrightarrow> split_lines (c @ 10 # t) = c # split_lines t"
  by (simp add: split_lines_append [of c] split_lines_single)

lemma render_no_newline: "row_ok (snd r) \<Longrightarrow> 10 \<notin> set (render w r)"
  by (auto simp: render_def row_ok_def)

lemma split_lines_tail_text:
  "10 \<notin> set c \<Longrightarrow> list_all (\<lambda>r. row_ok (snd r)) rs
   \<Longrightarrow> split_lines (c @ tail_text w rs) = c # map (render w) rs"
proof (induction rs arbitrary: c)
  case Nil
  then show ?case by (simp add: split_lines_single)
next
  case (Cons r rs)
  then have "split_lines (render w r @ tail_text w rs) = render w r # map (render w) rs"
    by (intro Cons.IH) (simp_all add: render_no_newline)
  with Cons.prems(1) show ?case
    using split_lines_newline [of c "render w r @ tail_text w rs"] by simp
qed

lemma leading_spaces_render: "row_ok (snd r) \<Longrightarrow> leading_spaces (render w r) = fst r * w"
  unfolding render_def row_ok_def by (intro leading_spaces_replicate_append) simp_all

lemma dumps_rows:
  "split_lines (dumps v (Some n) False) = map (render (nat n)) (rows 0 v)"
proof -
  obtain r rs where R: "rows 0 v = r # rs"
    by (cases "rows 0 v") simp_all
  with rows_ok [of 0 v] have ok: "row_ok (snd r)" "list_all (\<lambda>r. row_ok (snd r)) rs"
    by simp_all
  have "fst r = 0"
    using rows_first_level [of 0 v] R by simp
  then have "render (nat n) r = snd r"
    by (simp add: render_def)
  moreover have "split_lines (snd r @ tail_text (nat n) rs) = snd r # map (render (nat n)) rs"
    using ok by (intro split_lines_tail_text) (simp_all add: row_ok_def)
  ultimately show ?thesis
    by (simp add: dumps_def iterencode_rows R)
qed

lemma dumps_indentation:
  "map leading_spaces (split_lines (dumps v (Some n) False)) = map (\<lambda>r. fst r * nat n) (rows 0 v)"
  using rows_ok [of 0 v]
  by (simp add: dumps_rows list_all_iff leading_spaces_render)

lemma replicate_3: "replicate 3 x = [x, x, x]"
  by (simp add: numeral_3_eq_3)

lemma to_json_example_board:
  \<open>to_json example_board None
   = str ''{\<newline>  "tasks": [\<newline>    {\<newline>      "task": "''
     @ [92, 34, 97, 92, 92, 92, 110, 92, 117, 48, 48, 48, 49]
     @ str ''",\<newline>      "timerEntries": [\<newline>        {\<newline>          "startTime": "t0",\<newline>          "endTime": null\<newline>        }\<newline>      ]\<newline>    }\<newline>  ],\<newline>  "columnMetadata": [\<newline>    {\<newline>      "name": "Done",\<newline>      "state": "done",\<newline>      "manualSort": true\<newline>    }\<newline>  ],\<newline>  "slimMode": false,\<newline>  "columnWidths": {\<newline>    "A": 300,\<newline>    "B": -5\<newline>  }\<newline>}''\<close>
  by (simp add: example_board_def to_json_def KanbanData_to_dict_emit KanbanData_init_def
        KanbanTask_to_dict_emit KanbanTask_init_def TimerEntry_to_dict_def TimerEntry_init_def
        ColumnMetadata_to_dict_emit ColumnMetadata_init_def dumps_eval
        format_04x_def hex_digits.simps hexdigit_def replicate_3)

section \<open>The claims\<close>

text \<open>
  Claim C1. An optional field that is absent is left out of the output of every record type.
  \<open>TimerEntry.to_dict\<close> does not do so: for a timer entry built without an \<open>end_time\<close> it has
  the key \<open>endTime\<close> with the value \<open>None\<close>, which \<open>json.dumps\<close> writes as \<open>null\<close>. The three
  other methods leave out what is not set (the lemmas of the field-emission rule above).
\<close>

theorem TimerEntry_unset_end_time_is_null:
  \<open>TimerEntry_to_dict (TimerEntry_init (str ''2025-01-01T00:00:00Z''))
   = [(str ''startTime'', PStr (str ''2025-01-01T00:00:00Z'')), (str ''endTime'', PNone)]
   \<and> dict_get (TimerEntry_to_dict (TimerEntry_init (str ''2025-01-01T00:00:00Z'')))
       (str ''endTime'') = Some PNone
   \<and> dumps (PDict (TimerEntry_to_dict (TimerEntry_init (str ''2025-01-01T00:00:00Z''))))
       None False
     = str ''{"startTime": "2025-01-01T00:00:00Z", "endTime": null}''\<close>
  by (simp add: TimerEntry_to_dict_def TimerEntry_init_def dumps_eval)


text \<open>
  Claim C2. Every field is emitted under its wire key: the camelCase key of the renaming
  table for the fields listed there, the unchanged name for the others; and no method
  has a key outside the wire keys of its record.
\<close>

theorem wire_keys:
  "dict_get (TimerEntry_to_dict e) (str ''startTime'') = Some (PStr (start_time e))
   \<and> dict_get (TimerEntry_to_dict (e\<lparr>end_time := Some s1\<rparr>)) (str ''endTime'') = Some (PStr s1)
   \<and> keys (TimerEntry_to_dict e) = [str ''startTime'', str ''endTime'']
   \<and> dict_get (KanbanTask_to_dict t) (str ''task'') = Some (PStr (task t))
   \<and> dict_get (KanbanTask_to_dict (t\<lparr>status := Some s2\<rparr>)) (str ''status'') = Some (PStr s2)
   \<and> dict_get (KanbanTask_to_dict (t\<lparr>timer_entries := Some es\<rparr>)) (str ''timerEntries'')
       = Some (PList (map (\<lambda>entry. PDict (TimerEntry_to_dict entry)) es))
   \<and> dict_get (KanbanTask_to_dict (t\<lparr>target_time := Some s3\<rparr>)) (str ''targetTime'')
       = Some (PStr s3)
   \<and> dict_get (KanbanTask_to_dict (t\<lparr>tags := Some tgs\<rparr>)) (str ''tags'')
       = Some (PList (map PStr tgs))
   \<and> dict_get (KanbanTask_to_dict (t\<lparr>due_date := Some s4\<rparr>)) (str ''dueDate'') = Some (PStr s4)
   \<and> dict_get (KanbanTask_to_dict (t\<lparr>update_date_time := Some s5\<rparr>)) (str ''updateDateTime'')
       = Some (PStr s5)
   \<and> set (keys (KanbanTask_to_dict t))
       \<subseteq> {str ''task'', str ''status'', str ''timerEntries'', str ''targetTime'', str ''tags'',
          str ''dueDate'', str ''updateDateTime''}
   \<and> dict_get (ColumnMetadata_to_dict m) (str ''name'') = Some (PStr (name m))
   \<and> dict_get (ColumnMetadata_to_dict m) (str ''state'')
       = Some (PStr (ColumnState_value (state m)))
   \<and> dict_get (ColumnMetadata_to_dict (m\<lparr>icon := Some s6\<rparr>)) (str ''icon'') = Some (PStr s6)
   \<and> dict_get (ColumnMetadata_to_dict (m\<lparr>sort_field := Some f\<rparr>)) (str ''sortField'')
       = Some (PStr (SortField_value f))
   \<and> dict_get (ColumnMetadata_to_dict (m\<lparr>sort_order := Some ord\<rparr>)) (str ''sortOrder'')
       = Some (PStr (SortOrder_value ord))
   \<and> dict_get (ColumnMetadata_to_dict (m\<lparr>manual_sort := Some b1\<rparr>)) (str ''manualSort'')
       = Some (PBool b1)
   \<and> set (keys (ColumnMetadata_to_dict m))
       \<subseteq> {str ''name'', str ''state'', str ''icon'', str ''sortField'', str ''sortOrder'',
          str ''manualSort''}
   \<and> dict_get (KanbanData_to_dict (d\<lparr>tasks := Some ts\<rparr>)) (str ''tasks'')
       = Some (PList (map (\<lambda>task. PDict (KanbanTask_to_dict task)) ts))
   \<and> dict_get (KanbanData_to_dict (d\<lparr>columns := Some cs\<rparr>)) (str ''columns'')
       = Some (PList (map PStr cs))
   \<and> dict_get (KanbanData_to_dict (d\<lparr>column_metadata := Some ms\<rparr>)) (str ''columnMetadata'')
       = Some (PList (map (\<lambda>meta. PDict (ColumnMetadata_to_dict meta)) ms))
   \<and> dict_get (KanbanData_to_dict (d\<lparr>collapsed_columns := Some ccs\<rparr>)) (str ''collapsedColumns'')
       = Some (PList (map PStr ccs))
   \<and> dict_get (KanbanData_to_dict (d\<lparr>view := Some v\<rparr>)) (str ''view'')
       = Some (PStr (KanbanView_value v))
   \<and> dict_get (KanbanData_to_dict (d\<lparr>slim_mode := Some b2\<rparr>)) (str ''slimMode'')
       = Some (PBool b2)
   \<and> dict_get (KanbanData_to_dict (d\<lparr>column_widths := Some ws\<rparr>)) (str ''columnWidths'')
       = Some (PDict (map (\<lambda>(k, w). (k, PInt w)) ws))
   \<and> set (keys (KanbanData_to_dict d))
       \<subseteq> {str ''tasks'', str ''columns'', str ''columnMetadata'', str ''collapsedColumns'',
          str ''view'', str ''slimMode'', str ''columnWidths''}"
proof -
  have task_keys: "set (keys (KanbanTask_to_dict t))
       \<subseteq> {str ''task'', str ''status'', str ''timerEntries'', str ''targetTime'', str ''tags'',
          str ''dueDate'', str ''updateDateTime''}"
    unfolding KanbanTask_keys by auto
  have meta_keys: "set (keys (ColumnMetadata_to_dict m))
       \<subseteq> {str ''name'', str ''state'', str ''icon'', str ''sortField'', str ''sortOrder'',
          str ''manualSort''}"
    unfolding ColumnMetadata_keys by auto
  have data_keys: "set (keys (KanbanData_to_dict d))
       \<subseteq> {str ''tasks'', str ''columns'', str ''columnMetadata'', str ''collapsedColumns'',
          str ''view'', str ''slimMode'', str ''columnWidths''}"
    unfolding KanbanData_keys by auto
  show ?thesis
    using task_keys meta_keys data_keys
    by (simp add: TimerEntry_get_startTime TimerEntry_get_endTime TimerEntry_keys
          KanbanTask_get ColumnMetadata_get KanbanData_get)
qed

text \<open>
  Claim C3. An optional field that the caller has set, an empty sequence included, has its
  wire key in the output, with the converted value (an empty list for an empty
  sequence).
\<close>

theorem set_field_is_emitted:
  "(end_time e = Some s1 \<longrightarrow>
      dict_get (TimerEntry_to_dict e) (str ''endTime'') = Some (PStr s1))
   \<and> (status t = Some s2 \<longrightarrow>
      dict_get (KanbanTask_to_dict t) (str ''status'') = Some (PStr s2))
   \<and> (timer_entries t = Some es \<longrightarrow>
      dict_get (KanbanTask_to_dict t) (str ''timerEntries'')
        = Some (PList (map (\<lambda>entry. PDict (TimerEntry_to_dict entry)) es)))
   \<and> (target_time t = Some s3 \<longrightarrow>
      dict_get (KanbanTask_to_dict t) (str ''targetTime'') = Some (PStr s3))
   \<and> (tags t = Some tgs \<longrightarrow>
      dict_get (KanbanTask_to_dict t) (str ''tags'') = Some (PList (map PStr tgs)))
   \<and> (due_date t = Some s4 \<longrightarrow>
      dict_get (KanbanTask_to_dict t) (str ''dueDate'') = Some (PStr s4))
   \<and> (update_date_time t = Some s5 \<longrightarrow>
      dict_get (KanbanTask_to_dict t) (str ''updateDateTime'') = Some (PStr s5))
   \<and> (icon m = Some s6 \<longrightarrow>
      dict_get (ColumnMetadata_to_dict m) (str ''icon'') = Some (PStr s6))
   \<and> (sort_field m = Some f \<longrightarrow>
      dict_get (ColumnMetadata_to_dict m) (str ''sortField'') = Some (PStr (SortField_value f)))
   \<and> (sort_order m = Some ord \<longrightarrow>
      dict_get (ColumnMetadata_to_dict m) (str ''sortOrder'') = Some (PStr (SortOrder_value ord)))
   \<and> (manual_sort m = Some b1 \<longrightarrow>
      dict_get (ColumnMetadata_to_dict m) (str ''manualSort'') = Some (PBool b1))
   \<and> (tasks d = Some ts \<longrightarrow>
      dict_get (KanbanData_to_dict d) (str ''tasks'')
        = Some (PList (map (\<lambda>task. PDict (KanbanTask_to_dict task)) ts)))
   \<and> (columns d = Some cs \<longrightarrow>
      dict_get (KanbanData_to_dict d) (str ''columns'') = Some (PList (map PStr cs)))
   \<and> (column_metadata d = Some ms \<longrightarrow>
      dict_get (KanbanData_to_dict d) (str ''columnMetadata'')
        = Some (PList (map (\<lambda>meta. PDict (ColumnMetadata_to_dict meta)) ms)))
   \<and> (collapsed_columns d = Some ccs \<longrightarrow>
      dict_get (KanbanData_to_dict d) (str ''collapsedColumns'') = Some (PList (map PStr ccs)))
   \<and> (view d = Some v \<longrightarrow>
      dict_get (KanbanData_to_dict d) (str ''view'') = Some (PStr (KanbanView_value v)))
   \<and> (slim_mode d = Some b2 \<longrightarrow>
      dict_get (KanbanData_to_dict d) (str ''slimMode'') = Some (PBool b2))
   \<and> (column_widths d = Some ws \<longrightarrow>
      dict_get (KanbanData_to_dict d) (str ''columnWidths'')
        = Some (PDict (map (\<lambda>(k, w). (k, PInt w)) ws)))
   \<and> dict_get (KanbanTask_to_dict (t\<lparr>tags := Some []\<rparr>)) (str ''tags'') = Some (PList [])
   \<and> dict_get (KanbanTask_to_dict (t\<lparr>timer_entries := Some []\<rparr>)) (str ''timerEntries'')
       = Some (PList [])
   \<and> dict_get (KanbanData_to_dict (d\<lparr>columns := Some []\<rparr>)) (str ''columns'')
       = Some (PList [])"
  by (simp add: TimerEntry_get_endTime KanbanTask_get ColumnMetadata_get KanbanData_get)

theorem set_field_is_emitted_witness:
  "dict_get (TimerEntry_to_dict \<lparr>start_time = str ''t0'', end_time = Some (str ''t1'')\<rparr>)
       (str ''endTime'') = Some (PStr (str ''t1''))
   \<and> dict_get (KanbanTask_to_dict
         \<lparr>task = str ''a'', status = Some (str ''Done''), timer_entries = Some [],
          target_time = Some (str ''2h''), tags = Some [], due_date = Some (str ''d1''),
          update_date_time = Some (str ''d2'')\<rparr>) (str ''timerEntries'') = Some (PList [])
   \<and> dict_get (KanbanTask_to_dict
         \<lparr>task = str ''a'', status = Some (str ''Done''), timer_entries = Some [],
          target_time = Some (str ''2h''), tags = Some [], due_date = Some (str ''d1''),
          update_date_time = Some (str ''d2'')\<rparr>) (str ''tags'') = Some (PList [])
   \<and> dict_get (ColumnMetadata_to_dict
         \<lparr>name = str ''c'', state = DONE, icon = Some (str ''i''), sort_field = Some TITLE,
          sort_order = Some DESC, manual_sort = Some False\<rparr>) (str ''manualSort'')
       = Some (PBool False)
   \<and> dict_get (KanbanData_to_dict
         \<lparr>tasks = Some [], columns = Some [], column_metadata = Some [],
          collapsed_columns = Some [], view = Some TABLE, slim_mode = Some False,
          column_widths = Some []\<rparr>) (str ''columns'') = Some (PList [])
   \<and> dict_get (KanbanData_to_dict
         \<lparr>tasks = Some [], columns = Some [], column_metadata = Some [],
          collapsed_columns = Some [], view = Some TABLE, slim_mode = Some False,
          column_widths = Some []\<rparr>) (str ''columnWidths'') = Some (PDict [])"
  using set_field_is_emitted
    [of "\<lparr>start_time = str ''t0'', end_time = Some (str ''t1'')\<rparr>" "str ''t1''"
        "\<lparr>task = str ''a'', status = Some (str ''Done''), timer_entries = Some [],
          target_time = Some (str ''2h''), tags = Some [], due_date = Some (str ''d1''),
          update_date_time = Some (str ''d2'')\<rparr>"
        "str ''Done''" "[]" "str ''2h''" "[]" "str ''d1''" "str ''d2''"
        "\<lparr>name = str ''c'', state = DONE, icon = Some (str ''i''), sort_field = Some TITLE,
          sort_order = Some DESC, manual_sort = Some False\<rparr>"
        "str ''i''" TITLE DESC False
        "\<lparr>tasks = Some [], columns = Some [], column_metadata = Some [],
          collapsed_columns = Some [], view = Some TABLE, slim_mode = Some False,
          column_widths = Some []\<rparr>"
        "[]" "[]" "[]" "[]" TABLE False "[]"]
  by simp

text \<open>
  Claim C4. Every enumeration-typed field is emitted as the string tag of its member:
  each of the thirteen members gives its own documented tag through \<open>to_dict\<close>
  (\<open>ColumnState.IN_PROGRESS\<close> gives \<open>in-progress\<close>), the tag is the \<open>.value\<close> of the member,
  and it is never the \<open>.name\<close> of a member.
\<close>

theorem enum_fields_emit_value:
  "dict_get (ColumnMetadata_to_dict (m\<lparr>state := TODO\<rparr>)) (str ''state'')
       = Some (PStr (str ''todo''))
   \<and> dict_get (ColumnMetadata_to_dict (m\<lparr>state := IN_PROGRESS\<rparr>)) (str ''state'')
       = Some (PStr (str ''in-progress''))
   \<and> dict_get (ColumnMetadata_to_dict (m\<lparr>state := PENDING\<rparr>)) (str ''state'')
       = Some (PStr (str ''pending''))
   \<and> dict_get (ColumnMetadata_to_dict (m\<lparr>state := DONE\<rparr>)) (str ''state'')
       = Some (PStr (str ''done''))
   \<and> dict_get (ColumnMetadata_to_dict (m\<lparr>sort_field := Some UPDATE_DATE_TIME\<rparr>)) (str ''sortField'')
       = Some (PStr (str ''updateDateTime''))
   \<and> dict_get (ColumnMetadata_to_dict (m\<lparr>sort_field := Some DUE_DATE\<rparr>)) (str ''sortField'')
       = Some (PStr (str ''dueDate''))
   \<and> dict_get (ColumnMetadata_to_dict (m\<lparr>sort_field := Some TITLE\<rparr>)) (str ''sortField'')
       = Some (PStr (str ''title''))
   \<and> dict_get (ColumnMetadata_to_dict (m\<lparr>sort_field := Some TIME_SPENT\<rparr>)) (str ''sortField'')
       = Some (PStr (str ''timeSpent''))
   \<and> dict_get (ColumnMetadata_to_dict (m\<lparr>sort_order := Some ASC\<rparr>)) (str ''sortOrder'')
       = Some (PStr (str ''asc''))
   \<and> dict_get (ColumnMetadata_to_dict (m\<lparr>sort_order := Some DESC\<rparr>)) (str ''sortOrder'')
       = Some (PStr (str ''desc''))
   \<and> dict_get (KanbanData_to_dict (d\<lparr>view := Some HORIZONTAL\<rparr>)) (str ''view'')
       = Some (PStr (str ''horizontal''))
   \<and> dict_get (KanbanData_to_dict (d\<lparr>view := Some VERTICAL\<rparr>)) (str ''view'')
       = Some (PStr (str ''vertical''))
   \<and> dict_get (KanbanData_to_dict (d\<lparr>view := Some TABLE\<rparr>)) (str ''view'')
       = Some (PStr (str ''table''))
   \<and> dict_get (ColumnMetadata_to_dict m) (str ''state'')
       = Some (PStr (ColumnState_value (state m)))
   \<and> dict_get (ColumnMetadata_to_dict (m\<lparr>sort_field := Some f\<rparr>)) (str ''sortField'')
       = Some (PStr (SortField_value f))
   \<and> dict_get (ColumnMetadata_to_dict (m\<lparr>sort_order := Some ord\<rparr>)) (str ''sortOrder'')
       = Some (PStr (SortOrder_value ord))
   \<and> dict_get (KanbanData_to_dict (d\<lparr>view := Some v\<rparr>)) (str ''view'')
       = Some (PStr (KanbanView_value v))
   \<and> ColumnState_value IN_PROGRESS = str ''in-progress''
   \<and> ColumnState_value s \<in> {str ''todo'', str ''in-progress'', str ''pending'', str ''done''}
   \<and> SortField_value f
       \<in> {str ''updateDateTime'', str ''dueDate'', str ''title'', str ''timeSpent''}
   \<and> SortOrder_value ord \<in> {str ''asc'', str ''desc''}
   \<and> KanbanView_value v \<in> {str ''horizontal'', str ''vertical'', str ''table''}
   \<and> ColumnState_value s \<noteq> ColumnState_name s'
   \<and> SortField_value f \<noteq> SortField_name f'
   \<and> SortOrder_value ord \<noteq> SortOrder_name ord'
   \<and> KanbanView_value v \<noteq> KanbanView_name v'"
proof -
  have 1: "ColumnState_value s \<in> {str ''todo'', str ''in-progress'', str ''pending'', str ''done''}"
    by (cases s) simp_all
  have 2: "SortField_value f
       \<in> {str ''updateDateTime'', str ''dueDate'', str ''title'', str ''timeSpent''}"
    by (cases f) simp_all
  have 3: "SortOrder_value ord \<in> {str ''asc'', str ''desc''}"
    by (cases ord) simp_all
  have 4: "KanbanView_value v \<in> {str ''horizontal'', str ''vertical'', str ''table''}"
    by (cases v) simp_all
  have 5: "ColumnState_value s \<noteq> ColumnState_name s'"
    by (cases s; cases s') simp_all
  have 6: "SortField_value f \<noteq> SortField_name f'"
    by (cases f; cases f') simp_all
  have 7: "SortOrder_value ord \<noteq> SortOrder_name ord'"
    by (cases ord; cases ord') simp_all
  have 8: "KanbanView_value v \<noteq> KanbanView_name v'"
    by (cases v; cases v') simp_all
  show ?thesis
    using 1 2 3 4 5 6 7 8 by (simp add: ColumnMetadata_get KanbanData_get)
qed

text \<open>
  Claim C5. The task \<open>KanbanTask(task="Write docs", status="To Do",
  due_date="2025-01-01T00:00:00Z")\<close> converts to exactly the three entries \<open>task\<close>,
  \<open>status\<close>, \<open>dueDate\<close>, in this order.
\<close>

theorem write_docs_example:
  \<open>KanbanTask_to_dict
     ((KanbanTask_init (str ''Write docs''))
        \<lparr>status := Some (str ''To Do''), due_date := Some (str ''2025-01-01T00:00:00Z'')\<rparr>)
   = [(str ''task'', PStr (str ''Write docs'')),
      (str ''status'', PStr (str ''To Do'')),
      (str ''dueDate'', PStr (str ''2025-01-01T00:00:00Z''))]
   \<and> dumps (PDict (KanbanTask_to_dict
         ((KanbanTask_init (str ''Write docs''))
            \<lparr>status := Some (str ''To Do''),
             due_date := Some (str ''2025-01-01T00:00:00Z'')\<rparr>))) None False
     = str ''{"task": "Write docs", "status": "To Do", "dueDate": "2025-01-01T00:00:00Z"}''\<close>
  by (simp add: KanbanTask_to_dict_emit KanbanTask_init_def dumps_eval)



text \<open>
  Claim C7. \<open>KanbanData(columns=["A", "B"])\<close> converts to exactly the one entry \<open>columns\<close>
  with the list of \<open>A\<close> and \<open>B\<close>, in this order.
\<close>

theorem columns_only_example:
  \<open>KanbanData_to_dict (KanbanData_init\<lparr>columns := Some [str ''A'', str ''B'']\<rparr>)
   = [(str ''columns'', PList [PStr (str ''A''), PStr (str ''B'')])]
   \<and> dumps (PDict (KanbanData_to_dict (KanbanData_init\<lparr>columns := Some [str ''A'', str ''B'']\<rparr>)))
       None False
     = str ''{"columns": ["A", "B"]}''\<close>
  by (simp add: KanbanData_to_dict_emit KanbanData_init_def dumps_eval)


text \<open>
  Claim C8. \<open>to_json\<close> encodes the dictionary of the document as text: a reader of JSON
  gets exactly that dictionary back from the text, for every document and every
  indentation. The indentation is the one the caller gives, 2 when the caller gives
  none: the lines of the text are the rows of the layout, each indented by its nesting
  level times the width. Nothing that is not ASCII is escaped: the code points above 127
  of the text are those of the document's strings, and an emoji icon stands in the text
  as it is. The example board shows integers, booleans, \<open>null\<close> and escaped characters.
\<close>

theorem to_json_text:
  \<open>to_json d None = to_json d (Some 2)
   \<and> loads (to_json d indent_arg) = Some (PDict (KanbanData_to_dict d))
   \<and> split_lines (to_json d (Some n))
       = map (render (nat n)) (rows 0 (PDict (KanbanData_to_dict d)))
   \<and> map leading_spaces (split_lines (to_json d (Some n)))
       = map (\<lambda>r. fst r * nat n) (rows 0 (PDict (KanbanData_to_dict d)))
   \<and> (\<forall>l \<in> set (split_lines (to_json d (Some n))). nat n dvd leading_spaces l)
   \<and> to_json (KanbanData_init\<lparr>columns := Some [str ''A'', str ''B'']\<rparr>) (Some n)
       = str ''{\<newline>'' @ replicate (nat n) 32 @ str ''"columns": [\<newline>''
         @ replicate (2 * nat n) 32 @ str ''"A",\<newline>''
         @ replicate (2 * nat n) 32 @ str ''"B"\<newline>''
         @ replicate (nat n) 32 @ str '']\<newline>}''
   \<and> non_ascii (to_json d (Some n)) = non_ascii (text_of (PDict (KanbanData_to_dict d)))
   \<and> to_json (KanbanData_init
         \<lparr>column_metadata := Some [(ColumnMetadata_init (str ''Backlog''))\<lparr>icon := Some [128203]\<rparr>]\<rparr>)
       None
       = str ''{\<newline>  "columnMetadata": [\<newline>    {\<newline>      "name": "Backlog",\<newline>      "state": "todo",\<newline>      "icon": "''
         @ [128203] @ str ''"\<newline>    }\<newline>  ]\<newline>}''
   \<and> to_json example_board None
       = str ''{\<newline>  "tasks": [\<newline>    {\<newline>      "task": "''
         @ [92, 34, 97, 92, 92, 92, 110, 92, 117, 48, 48, 48, 49]
         @ str ''",\<newline>      "timerEntries": [\<newline>        {\<newline>          "startTime": "t0",\<newline>          "endTime": null\<newline>        }\<newline>      ]\<newline>    }\<newline>  ],\<newline>  "columnMetadata": [\<newline>    {\<newline>      "name": "Done",\<newline>      "state": "done",\<newline>      "manualSort": true\<newline>    }\<newline>  ],\<newline>  "slimMode": false,\<newline>  "columnWidths": {\<newline>    "A": 300,\<newline>    "B": -5\<newline>  }\<newline>}''\<close>
proof (intro conjI)
  show "to_json d None = to_json d (Some 2)"
    by (simp add: to_json_def)
  show "loads (to_json d indent_arg) = Some (PDict (KanbanData_to_dict d))"
    by (simp add: to_json_def loads_dumps)
  show "split_lines (to_json d (Some n))
       = map (render (nat n)) (rows 0 (PDict (KanbanData_to_dict d)))"
    by (simp add: to_json_def dumps_rows del: rows.simps)
  show "map leading_spaces (split_lines (to_json d (Some n)))
       = map (\<lambda>r. fst r * nat n) (rows 0 (PDict (KanbanData_to_dict d)))"
    by (simp add: to_json_def dumps_indentation del: rows.simps)
  show "\<forall>l \<in> set (split_lines (to_json d (Some n))). nat n dvd leading_spaces l"
    using dumps_lines_indented by (simp add: to_json_def)
  show "non_ascii (to_json d (Some n)) = non_ascii (text_of (PDict (KanbanData_to_dict d)))"
    by (simp add: to_json_def non_ascii_dumps)
qed (rule to_json_columns_text to_json_emoji_text to_json_example_board)+

theorem to_json_text_witness:
  \<open>str ''    "A",''
     \<in> set (split_lines
          (to_json (KanbanData_init\<lparr>columns := Some [str ''A'', str ''B'']\<rparr>) (Some 2)))
   \<and> nat 2 dvd leading_spaces (str ''    "A",'')
   \<and> leading_spaces (str ''    "A",'') = 4\<close>
proof -
  let ?d = "KanbanData_init\<lparr>columns := Some [str ''A'', str ''B'']\<rparr>"
  have line: \<open>str ''    "A",'' \<in> set (split_lines (to_json ?d (Some 2)))\<close>
    by (simp add: to_json_columns_lines)
  have "\<forall>l \<in> set (split_lines (to_json ?d (Some 2))). nat 2 dvd leading_spaces l"
    using to_json_text [of ?d None 2] by (elim conjE) assumption
  with line have \<open>nat 2 dvd leading_spaces (str ''    "A",'')\<close>
    by blast
  moreover have \<open>leading_spaces (str ''    "A",'') = 4\<close>
    by (simp add: leading_spaces_def str_def)
  ultimately show ?thesis
    using line by blast
qed

text \<open>
  Claim C10. The keys of the required fields are in every output: \<open>task\<close> for a task,
  \<open>name\<close> and \<open>state\<close> for a column's metadata, \<open>startTime\<close> for a timer entry.
\<close>

theorem required_keys_always_present:
  "dict_get (KanbanTask_to_dict t) (str ''task'') = Some (PStr (task t))
   \<and> str ''task'' \<in> set (keys (KanbanTask_to_dict t))
   \<and> dict_get (ColumnMetadata_to_dict m) (str ''name'') = Some (PStr (name m))
   \<and> dict_get (ColumnMetadata_to_dict m) (str ''state'')
         = Some (PStr (ColumnState_value (state m)))
   \<and> str ''name'' \<in> set (keys (ColumnMetadata_to_dict m))
   \<and> str ''state'' \<in> set (keys (ColumnMetadata_to_dict m))
   \<and> dict_get (TimerEntry_to_dict e) (str ''startTime'') = Some (PStr (start_time e))
   \<and> str ''startTime'' \<in> set (keys (TimerEntry_to_dict e))"
  by (simp add: KanbanTask_get ColumnMetadata_get TimerEntry_get_startTime
        KanbanTask_keys ColumnMetadata_keys TimerEntry_keys)

end
